theory Spec2Isabelle
  imports Complex_Main
begin

section \<open>JavaScript numbers and control flow\<close>

text \<open>
  The workers compute on JavaScript numbers. Finite numbers are modelled as exact
  reals (pixel counts as naturals); rounding of IEEE doubles is not modelled. The
  non-finite values matter only where an inverse projection hands them to the
  coordinate check, and are represented there by \<open>jsnum\<close>.
\<close>

datatype jsnum = Fin real | NaN | PosInfinity | NegInfinity

definition js_trunc :: "real \<Rightarrow> int" where
  "js_trunc v = (if 0 \<le> v then \<lfloor>v\<rfloor> else \<lceil>v\<rceil>)"

text \<open>The remainder operator \<open>a % b\<close>: the result takes the sign of the dividend.\<close>

definition js_rem :: "real \<Rightarrow> real \<Rightarrow> real" where
  "js_rem a b = a - b * of_int (js_trunc (a / b))"

definition js_floor :: "real \<Rightarrow> real" where
  "js_floor v = of_int \<lfloor>v\<rfloor>"

definition js_ceil :: "real \<Rightarrow> real" where
  "js_ceil v = of_int \<lceil>v\<rceil>"

text \<open>\<open>Math.round\<close> rounds halves towards positive infinity.\<close>

definition js_round :: "real \<Rightarrow> int" where
  "js_round v = \<lfloor>v + 1 / 2\<rfloor>"

definition js_floor_div :: "nat \<Rightarrow> nat \<Rightarrow> nat" where
  "js_floor_div a b = nat \<lfloor>real a / real b\<rfloor>"

definition js_ceil_div :: "nat \<Rightarrow> nat \<Rightarrow> nat" where
  "js_ceil_div a b = nat \<lceil>real a / real b\<rceil>"

text \<open>
  A call either returns, throws, or never returns. \<open>Diverges\<close> stands for a loop
  whose counter is advanced by a zero step; no \<open>catch\<close> intercepts it.
\<close>

datatype 'a outcome = Returns 'a | Throws string | Diverges

definition bindO :: "'a outcome \<Rightarrow> ('a \<Rightarrow> 'b outcome) \<Rightarrow> 'b outcome" where
  "bindO m f = (case m of Returns a \<Rightarrow> f a | Throws e \<Rightarrow> Throws e | Diverges \<Rightarrow> Diverges)"

text \<open>\<open>try { body } catch (e) { return h }\<close>\<close>

definition tryCatch :: "'a outcome \<Rightarrow> 'a \<Rightarrow> 'a outcome" where
  "tryCatch body h = (case body of Returns a \<Rightarrow> Returns a | Throws e \<Rightarrow> Returns h | Diverges \<Rightarrow> Diverges)"

text \<open>\<open>Array.prototype.some\<close> with a callback that may throw.\<close>

fun someO :: "('a \<Rightarrow> bool outcome) \<Rightarrow> 'a list \<Rightarrow> bool outcome" where
  "someO f [] = Returns False"
| "someO f (a # as) = bindO (f a) (\<lambda>b. if b then Returns True else someO f as)"

text \<open>A \<open>for ... of\<close> loop that returns the first element passing a test.\<close>

fun findO :: "('a \<Rightarrow> bool outcome) \<Rightarrow> 'a list \<Rightarrow> 'a option outcome" where
  "findO f [] = Returns None"
| "findO f (a # as) = bindO (f a) (\<lambda>b. if b then Returns (Some a) else findO f as)"

text \<open>A loop over a list that threads an accumulator and may throw.\<close>

fun foldO :: "('a \<Rightarrow> 's \<Rightarrow> 's outcome) \<Rightarrow> 'a list \<Rightarrow> 's \<Rightarrow> 's outcome" where
  "foldO f [] s = Returns s"
| "foldO f (a # as) s = bindO (f a s) (foldO f as)"

text \<open>First occurrences, in order: the iteration order of a \<open>Set\<close> built from a list.\<close>

fun firstOccurrences :: "'a list \<Rightarrow> 'a list \<Rightarrow> 'a list" where
  "firstOccurrences seen [] = []"
| "firstOccurrences seen (a # as) =
     (if a \<in> set seen then firstOccurrences seen as else a # firstOccurrences (seen @ [a]) as)"

text \<open>\<open>for (let v = lo; v < hi; v += step)\<close> over pixel counts.\<close>

function stepsFrom :: "nat \<Rightarrow> nat \<Rightarrow> nat \<Rightarrow> nat list" where
  "stepsFrom v hi step = (if v < hi \<and> 0 < step then v # stepsFrom (v + step) hi step else [])"
  by pat_completeness auto
termination
  by (relation "measure (\<lambda>(v, hi, step). hi - v)") auto

declare stepsFrom.simps [simp del]

definition forRange :: "nat \<Rightarrow> nat \<Rightarrow> nat \<Rightarrow> nat list outcome" where
  "forRange lo hi step = (if lo < hi \<and> step = 0 then Diverges else Returns (stepsFrom lo hi step))"

text \<open>The nested \<open>x\<close>/\<open>y\<close> loops of the samplers, column-major.\<close>

definition gridPoints :: "nat \<Rightarrow> nat \<Rightarrow> nat \<Rightarrow> nat \<Rightarrow> nat \<Rightarrow> (nat \<times> nat) list outcome" where
  "gridPoints sx ex sy ey step =
     bindO (forRange sx ex step) (\<lambda>xs.
       if xs = [] then Returns []
       else bindO (forRange sy ey step) (\<lambda>ys.
         Returns (concat (map (\<lambda>px. map (\<lambda>py. (px, py)) ys) xs))))"

text \<open>\<open>for (let v = lo; v < hi; v += GRID_SIZE)\<close> over degrees.\<close>

definition GRID_SIZE :: real where
  "GRID_SIZE = 10"

function degreesFrom :: "real \<Rightarrow> real \<Rightarrow> real list" where
  "degreesFrom v hi = (if v < hi then v # degreesFrom (v + GRID_SIZE) hi else [])"
  by pat_completeness auto
termination
proof (relation "measure (\<lambda>(v, hi). nat \<lceil>(hi - v) / GRID_SIZE\<rceil>)")
  show "wf (measure (\<lambda>(v, hi). nat \<lceil>(hi - v) / GRID_SIZE\<rceil>))" by simp
next
  fix v hi :: real
  assume lt: "v < hi"
  have "\<lceil>(hi - (v + 10)) / 10\<rceil> = \<lceil>(hi - v) / 10 - 1\<rceil>"
    by (simp add: field_simps)
  also have "\<dots> = \<lceil>(hi - v) / 10\<rceil> - 1" by simp
  finally have e: "\<lceil>(hi - (v + 10)) / 10\<rceil> = \<lceil>(hi - v) / 10\<rceil> - 1" .
  from lt have "0 < \<lceil>(hi - v) / 10\<rceil>" by (simp add: ceiling_less_iff)
  with e show "((v + GRID_SIZE, hi), (v, hi)) \<in> measure (\<lambda>(v, hi). nat \<lceil>(hi - v) / GRID_SIZE\<rceil>)"
    by (simp add: GRID_SIZE_def)
qed

declare degreesFrom.simps [simp del]

section \<open>fast-worker.js: data\<close>

text \<open>
  A feature carries its name and its rings of \<open>[longitude, latitude]\<close> pairs. The
  d3 library (bounds, centroid, containment, distance, projections) is outside the
  repository; its functions are parameters of the model, collected in \<open>d3env\<close>.
  Containment, distance and inversion may throw. The diagnostic counters of
  \<open>debugInfo\<close> are not modelled: no decision of the worker reads them.
\<close>

type_synonym lonlat = "real \<times> real"

datatype geometry =
    Polygon "lonlat list list"
  | MultiPolygon "lonlat list list list"
  | OtherGeometry

record feature =
  properties_name :: string
  geometry :: geometry

record bounds =
  center :: lonlat
  radius :: real
  isPolar :: bool
  crossesAntimeridian :: bool
  isSpecialRegion :: bool
  regionType :: string

type_synonym circle = "feature \<times> bounds"

type_synonym cellKey = "real \<times> real"

type_synonym spatialGrid = "cellKey \<rightharpoonup> circle list"

record lookupMap =
  map_data :: "nat list"
  map_width :: nat
  map_height :: nat
  map_resolution :: nat

record 'p d3env =
  geoBounds :: "feature \<Rightarrow> lonlat \<times> lonlat"
  geoCentroid :: "feature \<Rightarrow> lonlat"
  geoContains :: "feature \<Rightarrow> lonlat \<Rightarrow> bool outcome"
  geoDistance :: "lonlat \<Rightarrow> lonlat \<Rightarrow> real outcome"
  setupProjection :: "string \<Rightarrow> nat \<Rightarrow> nat \<Rightarrow> 'p outcome"
  invert :: "'p \<Rightarrow> nat \<times> nat \<Rightarrow> (jsnum \<times> jsnum) option outcome"

record 'p worker =
  world :: "feature list"
  countryCircles :: "circle list"
  spatialGrid :: spatialGrid
  countryLookupMap :: "lookupMap option"
  currentProjection :: "'p option"

record dot =
  dot_x :: real
  dot_y :: real
  countryName :: "string option"
  coords :: "(jsnum \<times> jsnum) option"

record params =
  projectionName :: string
  width :: nat
  height :: nat
  spacing :: nat
  showOceanDots :: bool

record chunk = params +
  startX :: nat
  endX :: nat
  startY :: nat
  endY :: nat

section \<open>fast-worker.js: coordinates\<close>

definition wrapLongitude :: "real \<Rightarrow> real" where
  "wrapLongitude lon0 =
     (let lon1 = js_rem (lon0 + 180) 360 - 180;
          lon2 = (if lon1 \<le> -180 then lon1 + 360 else lon1);
          lon3 = (if lon2 > 180 then lon2 - 360 else lon2)
      in lon3)"

fun isValidCoordinate :: "jsnum \<times> jsnum \<Rightarrow> bool" where
  "isValidCoordinate (Fin lon, Fin lat) = (\<bar>lat\<bar> \<le> 90)"
| "isValidCoordinate (_, _) = False"

definition getGridCell :: "lonlat \<Rightarrow> cellKey" where
  "getGridCell coordinates =
     (let lon = fst coordinates; lat = snd coordinates;
          gridLat = js_floor (lat / GRID_SIZE) * GRID_SIZE;
          gridLon0 = js_floor (lon / GRID_SIZE) * GRID_SIZE;
          gridLon = js_rem (gridLon0 + 180) 360 - 180
      in (gridLat, gridLon))"

definition createDotsGrid :: "nat \<Rightarrow> nat \<Rightarrow> nat \<Rightarrow> (nat \<times> nat) list outcome" where
  "createDotsGrid spc w h = gridPoints 0 w 0 h spc"

section \<open>fast-worker.js: bounding circles\<close>

definition antarcticaBounds :: bounds where
  "antarcticaBounds =
     \<lparr>center = (0, -90), radius = pi / 2.5, isPolar = True, crossesAntimeridian = True,
      isSpecialRegion = True, regionType = ''antarctica''\<rparr>"

definition russiaBounds :: bounds where
  "russiaBounds =
     \<lparr>center = (100, 65), radius = pi / 2.5, isPolar = True, crossesAntimeridian = True,
      isSpecialRegion = True, regionType = ''russia''\<rparr>"

definition mainBounds :: "lonlat \<Rightarrow> bounds" where
  "mainBounds centroid =
     \<lparr>center = centroid, radius = pi / 4, isPolar = False, crossesAntimeridian = False,
      isSpecialRegion = True, regionType = ''usa-main''\<rparr>"

definition alaskaBounds :: bounds where
  "alaskaBounds =
     \<lparr>center = (-170, 65), radius = pi / 3.5, isPolar = True, crossesAntimeridian = True,
      isSpecialRegion = True, regionType = ''usa-alaska''\<rparr>"

text \<open>One sample of the bounding-box grid: the body of the inner loop.\<close>

definition sampleStep ::
  "'p d3env \<Rightarrow> feature \<Rightarrow> lonlat \<Rightarrow> lonlat \<times> lonlat \<Rightarrow> bool \<Rightarrow> nat \<Rightarrow> nat \<times> nat \<Rightarrow> real \<Rightarrow> real outcome" where
  "sampleStep env g centroid bnds crosses sampleCount ij maxDistance =
     (let minLon = fst (fst bnds); minLat = snd (fst bnds);
          maxLon = fst (snd bnds); maxLat = snd (snd bnds);
          i = fst ij; j = snd ij;
          lat = minLat + (maxLat - minLat) * (real i / real sampleCount);
          lon = (if crosses
                 then (let span = js_rem (360 + maxLon - minLon) 360;
                           l = minLon + span * (real j / real sampleCount)
                       in if l > 180 then l - 360 else l)
                 else minLon + (maxLon - minLon) * (real j / real sampleCount))
      in bindO (geoContains env g (lon, lat)) (\<lambda>inside.
           if inside
           then bindO (geoDistance env centroid (lon, lat)) (\<lambda>distance.
                  Returns (max maxDistance distance))
           else Returns maxDistance))"

definition calculateCircularBounds :: "'p d3env \<Rightarrow> feature \<Rightarrow> bounds list outcome" where
  "calculateCircularBounds env g =
     (let bnds = geoBounds env g;
          minLon = fst (fst bnds); minLat = snd (fst bnds);
          maxLon = fst (snd bnds); maxLat = snd (snd bnds);
          polar = (\<bar>minLat\<bar> > 80 \<or> \<bar>maxLat\<bar> > 80);
          crosses = (maxLon < minLon \<or> maxLon - minLon > 350);
          centroid = geoCentroid env g;
          isRussia = (snd centroid > 50 \<and> fst centroid > 60 \<and> fst centroid < 180);
          isUSA = (snd centroid > 30 \<and> fst centroid < -30 \<and> fst centroid > -180);
          isAntarctica = (snd centroid < -60)
      in if isAntarctica then Returns [antarcticaBounds]
         else if isRussia then Returns [russiaBounds]
         else if isUSA then Returns [mainBounds centroid, alaskaBounds]
         else if polar \<and> (minLat + maxLat) / 2 > 60
         then Returns [\<lparr>center = centroid, radius = pi / 3, isPolar = True,
                         crossesAntimeridian = crosses, isSpecialRegion = False,
                         regionType = ''polar''\<rparr>]
         else (let sampleCount = (if polar then 100 else 50 :: nat);
                   samples = concat (map (\<lambda>i. map (\<lambda>j. (i, j)) [0..<Suc sampleCount])
                                         [0..<Suc sampleCount])
               in bindO (foldO (sampleStep env g centroid bnds crosses sampleCount) samples 0)
                    (\<lambda>maxDistance.
                       Returns [\<lparr>center = centroid,
                                 radius = maxDistance * (if crosses then 1.2 else 1.02),
                                 isPolar = polar, crossesAntimeridian = crosses,
                                 isSpecialRegion = False, regionType = ''standard''\<rparr>])))"

section \<open>fast-worker.js: spatial grid\<close>

definition radiusDegrees :: "bounds \<Rightarrow> real" where
  "radiusDegrees b = radius b * 180 / pi"

text \<open>The \<open>(lat, lon)\<close> pairs visited by the two loops of one circle, before the wrap.\<close>

definition cellLoop :: "bounds \<Rightarrow> (real \<times> real) list" where
  "cellLoop b =
     (let c = center b; r = radiusDegrees b;
          minLat = max (-90) (js_floor ((snd c - r) / GRID_SIZE) * GRID_SIZE);
          maxLat = min 90 (js_ceil ((snd c + r) / GRID_SIZE) * GRID_SIZE);
          minLon = js_floor ((fst c - r) / GRID_SIZE) * GRID_SIZE;
          maxLon = js_ceil ((fst c + r) / GRID_SIZE) * GRID_SIZE
      in concat (map (\<lambda>lat. map (\<lambda>lon. (lat, lon)) (degreesFrom minLon maxLon))
                     (degreesFrom minLat maxLat)))"

definition wrappedCell :: "real \<times> real \<Rightarrow> cellKey" where
  "wrappedCell latlon = (fst latlon, js_rem (snd latlon + 180) 360 - 180)"

definition gridPush :: "circle \<Rightarrow> cellKey \<Rightarrow> spatialGrid \<Rightarrow> spatialGrid" where
  "gridPush entry cellKey grid =
     (let grid' = (if grid cellKey = None then grid(cellKey \<mapsto> []) else grid)
      in grid'(cellKey \<mapsto> the (grid' cellKey) @ [entry]))"

definition initializeSpatialGrid :: "circle list \<Rightarrow> spatialGrid" where
  "initializeSpatialGrid circles =
     fold (\<lambda>entry grid. fold (\<lambda>latlon. gridPush entry (wrappedCell latlon)) (cellLoop (snd entry)) grid)
       circles Map.empty"

definition gridGet :: "spatialGrid \<Rightarrow> cellKey \<Rightarrow> circle list" where
  "gridGet grid cell = (case grid cell of None \<Rightarrow> [] | Some entries \<Rightarrow> entries)"

section \<open>fast-worker.js: initialisation\<close>

definition processCoordinates :: "lonlat list \<Rightarrow> lonlat list" where
  "processCoordinates ring =
     map (\<lambda>coord.
            let lon = fst coord; lat = snd coord;
                lon1 = (if \<bar>lat\<bar> > 60 \<and> lon > 180 then lon - 360 else lon);
                lon2 = (if \<bar>lat\<bar> > 60 \<and> lon1 \<le> -180 then lon1 + 360 else lon1)
            in (wrapLongitude lon2, lat)) ring"

definition processFeature :: "feature \<Rightarrow> feature" where
  "processFeature f =
     (case geometry f of
        MultiPolygon polys \<Rightarrow> f\<lparr>geometry := MultiPolygon (map (map processCoordinates) polys)\<rparr>
      | Polygon rings \<Rightarrow> f\<lparr>geometry := Polygon (map processCoordinates rings)\<rparr>
      | OtherGeometry \<Rightarrow> f)"

text \<open>
  \<open>initializeWorld\<close> takes the features that \<open>topojson.feature\<close> has produced. When the
  derivation of a circle throws, the message handler reports the error; the model
  then yields \<open>Throws\<close> and no state.
\<close>

definition circlesOf :: "'p d3env \<Rightarrow> feature \<Rightarrow> circle list outcome" where
  "circlesOf env country =
     bindO (calculateCircularBounds env country) (\<lambda>bs. Returns (map (\<lambda>b. (country, b)) bs))"

definition initializeWorld :: "'p d3env \<Rightarrow> feature list \<Rightarrow> 'p worker \<Rightarrow> 'p worker outcome" where
  "initializeWorld env features w =
     (let features' = map processFeature features
      in bindO (foldO (\<lambda>country acc. bindO (circlesOf env country) (\<lambda>cs. Returns (acc @ cs)))
                  features' [])
           (\<lambda>circles. Returns (w\<lparr>world := features', countryCircles := circles,
                                  spatialGrid := initializeSpatialGrid circles\<rparr>)))"

section \<open>fast-worker.js: point classification\<close>

definition testLons :: "real \<Rightarrow> real list" where
  "testLons lon =
     [lon] @ (if lon > 150 then [lon - 360] else []) @ (if lon < -150 then [lon + 360] else [])"

text \<open>
  The nested loops over circles and test longitudes return at the first hit, so they
  are a search over the pairs in loop order.
\<close>

definition alaskaPath :: "'p d3env \<Rightarrow> 'p worker \<Rightarrow> real \<Rightarrow> real \<Rightarrow> feature option outcome" where
  "alaskaPath env st lon lat =
     (if lat > 50 \<and> lon < -150
      then bindO (findO (\<lambda>ct. geoContains env (fst ct) (snd ct, lat))
                    (concat (map (\<lambda>entry.
                       if regionType (snd entry) = ''usa-alaska''
                       then map (\<lambda>t. (fst entry, t)) ([lon] @ (if lon < -170 then [lon + 360] else []))
                       else []) (countryCircles st))))
             (\<lambda>hit. Returns (map_option fst hit))
      else Returns None)"

definition specialPath :: "'p d3env \<Rightarrow> 'p worker \<Rightarrow> real \<Rightarrow> real \<Rightarrow> feature option outcome" where
  "specialPath env st lon lat =
     (let isNearAntimeridian = (lon > 150 \<or> lon < -150);
          isHighLatitude = (\<bar>lat\<bar> > 60)
      in if isHighLatitude \<or> isNearAntimeridian
         then bindO (findO (\<lambda>ct. geoContains env (fst ct) (snd ct, lat))
                       (concat (map (\<lambda>entry.
                          if isSpecialRegion (snd entry)
                          then map (\<lambda>t. (fst entry, t)) (testLons lon)
                          else []) (countryCircles st))))
                (\<lambda>hit. Returns (map_option fst hit))
         else Returns None)"

text \<open>The test applied to one grid candidate.\<close>

definition candidateTest :: "'p d3env \<Rightarrow> real list \<Rightarrow> real \<Rightarrow> circle \<Rightarrow> bool outcome" where
  "candidateTest env lons lat entry =
     (let country = fst entry; b = snd entry
      in if isPolar b \<or> crossesAntimeridian b
         then someO (\<lambda>t. geoContains env country (t, lat)) lons
         else bindO (someO (\<lambda>t. bindO (geoDistance env (center b) (t, lat))
                                    (\<lambda>d. Returns (d \<le> radius b))) lons)
                (\<lambda>withinBounds.
                   if withinBounds
                   then someO (\<lambda>t. geoContains env country (t, lat)) lons
                   else Returns False))"

text \<open>
  The candidates are a \<open>Set\<close> of the entry objects of the cells looked up. Every
  push of the grid build creates a fresh object, so two entries are the same object
  only if they come from the same cell array at the same position.
\<close>

definition generalPath :: "'p d3env \<Rightarrow> 'p worker \<Rightarrow> real \<Rightarrow> real \<Rightarrow> feature option outcome" where
  "generalPath env st lon lat =
     (let lons = testLons lon;
          cells = map (\<lambda>t. getGridCell (t, lat)) lons;
          candidates = concat (map (gridGet (spatialGrid st)) (firstOccurrences [] cells))
      in bindO (findO (candidateTest env lons lat) candidates)
           (\<lambda>hit. Returns (map_option fst hit)))"

definition classifyBody :: "'p d3env \<Rightarrow> 'p worker \<Rightarrow> nat \<times> nat \<Rightarrow> feature option outcome" where
  "classifyBody env st point =
     (case currentProjection st of
        None \<Rightarrow> Throws ''TypeError''
      | Some proj \<Rightarrow>
          bindO (invert env proj point) (\<lambda>coordinates.
            case coordinates of
              None \<Rightarrow> Returns None
            | Some c \<Rightarrow>
                if \<not> isValidCoordinate c then Returns None
                else (case c of
                        (Fin lon0, Fin lat) \<Rightarrow>
                          (let lon = wrapLongitude lon0
                           in bindO (alaskaPath env st lon lat) (\<lambda>r1.
                                case r1 of
                                  Some country \<Rightarrow> Returns (Some country)
                                | None \<Rightarrow>
                                    bindO (specialPath env st lon lat) (\<lambda>r2.
                                      case r2 of
                                        Some country \<Rightarrow> Returns (Some country)
                                      | None \<Rightarrow> generalPath env st lon lat)))
                      | _ \<Rightarrow> Returns None)))"

definition getCountryAtPointSlow :: "'p d3env \<Rightarrow> 'p worker \<Rightarrow> nat \<times> nat \<Rightarrow> feature option outcome" where
  "getCountryAtPointSlow env st point = tryCatch (classifyBody env st point) None"

fun inProjectionRange :: "jsnum \<times> jsnum \<Rightarrow> bool" where
  "inProjectionRange (Fin lon, Fin lat) = (\<bar>lat\<bar> \<le> 90 \<and> \<bar>lon\<bar> \<le> 180)"
| "inProjectionRange (_, _) = False"

definition isPointInProjection :: "'p d3env \<Rightarrow> 'p worker \<Rightarrow> nat \<times> nat \<Rightarrow> bool outcome" where
  "isPointInProjection env st point =
     tryCatch
       (case currentProjection st of
          None \<Rightarrow> Throws ''TypeError''
        | Some proj \<Rightarrow>
            bindO (invert env proj point) (\<lambda>coordinates.
              case coordinates of
                None \<Rightarrow> Returns False
              | Some c \<Rightarrow> Returns (inProjectionRange c)))
       False"

section \<open>fast-worker.js: lookup map\<close>

fun nth_opt :: "'a list \<Rightarrow> nat \<Rightarrow> 'a option" where
  "nth_opt [] i = None"
| "nth_opt (a # as) 0 = Some a"
| "nth_opt (a # as) (Suc i) = nth_opt as i"

text \<open>\<open>features.indexOf(country) + 1\<close>: zero when the country is not in the array.\<close>

fun indexOfPlus1 :: "'a list \<Rightarrow> 'a \<Rightarrow> nat" where
  "indexOfPlus1 [] a = 0"
| "indexOfPlus1 (b # bs) a =
     (if b = a then 1 else (case indexOfPlus1 bs a of 0 \<Rightarrow> 0 | Suc k \<Rightarrow> Suc (Suc k)))"

definition lookupCell :: "'p worker \<Rightarrow> lookupMap \<Rightarrow> nat \<times> nat \<Rightarrow> feature option" where
  "lookupCell st m point =
     (if map_resolution m = 0 then None
      else (let cx = js_floor_div (fst point) (map_resolution m);
                cy = js_floor_div (snd point) (map_resolution m)
            in if cx \<ge> map_width m \<or> cy \<ge> map_height m then None
               else (case nth_opt (map_data m) (cy * map_width m + cx) of
                       None \<Rightarrow> None
                     | Some index \<Rightarrow> if index > 0 then nth_opt (world st) (index - 1) else None)))"

definition getCountryAtPointFast :: "'p d3env \<Rightarrow> 'p worker \<Rightarrow> nat \<times> nat \<Rightarrow> feature option outcome" where
  "getCountryAtPointFast env st point =
     (case countryLookupMap st of
        None \<Rightarrow> getCountryAtPointSlow env st point
      | Some m \<Rightarrow> Returns (lookupCell st m point))"

text \<open>
  The map is a \<open>Uint16Array\<close>, so the stored index is taken modulo 65536. Pixel
  coordinates are naturals, so the test \<open>x < 0\<close> of the lookup is never true. The
  progress messages are not modelled.

  With a resolution of zero the quotients \<open>width / resolution\<close> and
  \<open>height / resolution\<close> are infinite for a positive dividend and NaN for zero. With
  both dimensions positive the array length is infinite and the constructor throws.
  With a zero height the length is NaN, the array is empty and the row loop does not
  run. With a zero width and a positive height the array is empty and the row loop
  never ends. The width and height of a map of resolution zero are not numbers of
  cells; the model stores zero for them, and neither the lookup nor the guard of
  \<open>calculateDots\<close> reads them at that resolution.
\<close>

record lookupParams =
  lp_width :: nat
  lp_height :: nat
  lp_projectionName :: string
  lp_resolution :: nat

definition buildCountryLookupMap :: "'p d3env \<Rightarrow> 'p worker \<Rightarrow> lookupParams \<Rightarrow> 'p worker outcome" where
  "buildCountryLookupMap env st q =
     bindO (setupProjection env (lp_projectionName q) (lp_width q) (lp_height q)) (\<lambda>proj.
       if lp_resolution q = 0
       then (if lp_width q > 0 \<and> lp_height q > 0 then Throws ''RangeError''
             else if lp_height q > 0 then Diverges
             else Returns (st\<lparr>currentProjection := Some proj,
                                countryLookupMap :=
                                  Some \<lparr>map_data = [], map_width = 0, map_height = 0,
                                        map_resolution = 0\<rparr>\<rparr>))
       else (let st1 = st\<lparr>currentProjection := Some proj\<rparr>;
                 mapWidth = js_ceil_div (lp_width q) (lp_resolution q);
                 mapHeight = js_ceil_div (lp_height q) (lp_resolution q);
                 cells = concat (map (\<lambda>cy. map (\<lambda>cx. (cx, cy)) [0..<mapWidth]) [0..<mapHeight])
             in bindO (foldO (\<lambda>cell acc.
                         bindO (getCountryAtPointSlow env st1
                                  (fst cell * lp_resolution q, snd cell * lp_resolution q))
                           (\<lambda>country.
                              Returns (acc @ [(case country of
                                                 None \<Rightarrow> 0
                                               | Some c \<Rightarrow> indexOfPlus1 (world st1) c) mod 65536])))
                       cells [])
                  (\<lambda>cellData.
                     Returns (st1\<lparr>countryLookupMap :=
                                Some \<lparr>map_data = cellData, map_width = mapWidth,
                                      map_height = mapHeight,
                                      map_resolution = lp_resolution q\<rparr>\<rparr>))))"

section \<open>fast-worker.js: sampling\<close>

definition makeDot :: "nat \<times> nat \<Rightarrow> feature option \<Rightarrow> (jsnum \<times> jsnum) option \<Rightarrow> dot" where
  "makeDot point country c =
     \<lparr>dot_x = real (fst point), dot_y = real (snd point),
      countryName = map_option properties_name country, coords = c\<rparr>"

definition invertCurrent :: "'p d3env \<Rightarrow> 'p worker \<Rightarrow> nat \<times> nat \<Rightarrow> (jsnum \<times> jsnum) option outcome" where
  "invertCurrent env st point =
     (case currentProjection st of
        None \<Rightarrow> Throws ''TypeError''
      | Some proj \<Rightarrow> invert env proj point)"

text \<open>The body of the inner loop of \<open>processChunk\<close>.\<close>

definition chunkPoint :: "'p d3env \<Rightarrow> 'p worker \<Rightarrow> bool \<Rightarrow> nat \<times> nat \<Rightarrow> dot list \<Rightarrow> dot list outcome" where
  "chunkPoint env st showOcean point results =
     bindO (isPointInProjection env st point) (\<lambda>inside.
       if \<not> inside then Returns results
       else bindO (if countryLookupMap st \<noteq> None
                   then getCountryAtPointFast env st point
                   else getCountryAtPointSlow env st point) (\<lambda>country.
              if country = None \<and> \<not> showOcean then Returns results
              else bindO (invertCurrent env st point) (\<lambda>c.
                     Returns (results @ [makeDot point country c]))))"

definition processChunk :: "'p d3env \<Rightarrow> 'p worker \<Rightarrow> chunk \<Rightarrow> ('p worker \<times> dot list) outcome" where
  "processChunk env st ch =
     bindO (case currentProjection st of
              None \<Rightarrow> setupProjection env (projectionName ch) (width ch) (height ch)
            | Some proj \<Rightarrow> Returns proj) (\<lambda>proj.
       let st1 = st\<lparr>currentProjection := Some proj\<rparr>
       in bindO (gridPoints (startX ch) (endX ch) (startY ch) (endY ch) (spacing ch)) (\<lambda>points.
            bindO (foldO (chunkPoint env st1 (showOceanDots ch)) points []) (\<lambda>results.
              Returns (st1, results))))"

definition useFast :: "'p worker \<Rightarrow> params \<Rightarrow> bool" where
  "useFast st q =
     (case countryLookupMap st of
        None \<Rightarrow> False
      | Some m \<Rightarrow>
          map_resolution m \<noteq> 0
          \<and> map_width m = js_ceil_div (width q) (map_resolution m)
          \<and> map_height m = js_ceil_div (height q) (map_resolution m))"

definition calculateDots :: "'p d3env \<Rightarrow> 'p worker \<Rightarrow> params \<Rightarrow> ('p worker \<times> dot list) outcome" where
  "calculateDots env st q =
     bindO (setupProjection env (projectionName q) (width q) (height q)) (\<lambda>proj.
       let st1 = st\<lparr>currentProjection := Some proj\<rparr>
       in bindO (createDotsGrid (spacing q) (width q) (height q)) (\<lambda>grid.
            bindO (foldO (\<lambda>point acc.
                            bindO (isPointInProjection env st1 point) (\<lambda>inside.
                              Returns (if inside then acc @ [point] else acc))) grid []) (\<lambda>dots.
              bindO (foldO (\<lambda>point acc.
                              bindO (if useFast st1 q
                                     then getCountryAtPointFast env st1 point
                                     else getCountryAtPointSlow env st1 point) (\<lambda>country.
                                if country = None \<and> \<not> showOceanDots q then Returns acc
                                else bindO (invertCurrent env st1 point) (\<lambda>c.
                                       Returns (acc @ [makeDot point country c])))) dots [])
                (\<lambda>results. Returns (st1, results)))))"

section \<open>cache-manager.js: CacheManager\<close>

text \<open>
  A \<open>Map\<close> and a plain object with string keys both iterate in insertion order;
  they are association lists with distinct keys. Writing an existing key keeps its
  position.
\<close>

fun mapSet :: "'k \<Rightarrow> 'v \<Rightarrow> ('k \<times> 'v) list \<Rightarrow> ('k \<times> 'v) list" where
  "mapSet k v [] = [(k, v)]"
| "mapSet k v (e # es) = (if fst e = k then (k, v) # es else e # mapSet k v es)"

definition mapDelete :: "'k \<Rightarrow> ('k \<times> 'v) list \<Rightarrow> ('k \<times> 'v) list" where
  "mapDelete k es = filter (\<lambda>e. fst e \<noteq> k) es"

record meta =
  created :: int
  lastAccess :: int
  meta_size :: nat

datatype storageError = QuotaExceededError | OtherStorageError

text \<open>
  \<open>JSON\<close> and the quota of \<open>localStorage\<close> belong to the browser and are parameters:
  \<open>stringify\<close> and \<open>parse\<close> yield \<open>None\<close> when the call throws, \<open>setItemError\<close> says
  whether a write is refused. The clock is the argument \<open>now\<close> of each operation.
\<close>

record 'v browser =
  stringify :: "'v \<Rightarrow> string option"
  parse :: "string \<Rightarrow> 'v option"
  stringifyMeta :: "(string \<times> meta) list \<Rightarrow> string"
  parseMeta :: "string \<Rightarrow> (string \<times> meta) list option"
  setItemError :: "(string \<rightharpoonup> string) \<Rightarrow> string \<Rightarrow> string \<Rightarrow> storageError option"

record 'v cacheManager =
  memoryCache :: "(string \<times> 'v) list"
  maxMemoryItems :: nat
  useLocalStorage :: bool
  metadata :: "(string \<times> meta) list"
  localStorage :: "string \<rightharpoonup> string"

definition cachePrefix :: string where
  "cachePrefix = ''dotsmap_cache_''"

definition metadataKey :: string where
  "metadataKey = ''dotsmap_cache_metadata''"

fun showNat :: "nat \<Rightarrow> string" where
  "showNat n = (if n < 10 then [char_of (48 + n)] else showNat (n div 10) @ [char_of (48 + n mod 10)])"

declare showNat.simps [simp del]

definition generateKey :: "params \<Rightarrow> string" where
  "generateKey q =
     projectionName q @ ''-'' @ showNat (width q) @ ''-'' @ showNat (height q) @ ''-''
     @ showNat (spacing q) @ ''-'' @ (if showOceanDots q then ''true'' else ''false'')"

definition loadMetadata :: "'v browser \<Rightarrow> 'v cacheManager \<Rightarrow> 'v cacheManager" where
  "loadMetadata env s =
     (if \<not> useLocalStorage s then s
      else (case localStorage s metadataKey of
              None \<Rightarrow> s\<lparr>metadata := []\<rparr>
            | Some metadataStr \<Rightarrow>
                if metadataStr = [] then s\<lparr>metadata := []\<rparr>
                else (case parseMeta env metadataStr of
                        None \<Rightarrow> s\<lparr>metadata := []\<rparr>
                      | Some md \<Rightarrow> s\<lparr>metadata := md\<rparr>)))"

definition saveMetadata :: "'v browser \<Rightarrow> 'v cacheManager \<Rightarrow> 'v cacheManager" where
  "saveMetadata env s =
     (if \<not> useLocalStorage s then s
      else (let str = stringifyMeta env (metadata s)
            in case setItemError env (localStorage s) metadataKey str of
                 None \<Rightarrow> s\<lparr>localStorage := (localStorage s)(metadataKey \<mapsto> str)\<rparr>
               | Some e \<Rightarrow> s))"

definition enforceSizeLimit :: "'v cacheManager \<Rightarrow> 'v cacheManager" where
  "enforceSizeLimit s =
     (if length (memoryCache s) > maxMemoryItems s
      then (let firstKey = fst (hd (memoryCache s))
            in s\<lparr>memoryCache := mapDelete firstKey (memoryCache s)\<rparr>)
      else s)"

definition cleanOldEntries :: "'v browser \<Rightarrow> int \<Rightarrow> bool \<Rightarrow> 'v cacheManager \<Rightarrow> 'v cacheManager" where
  "cleanOldEntries env now aggressive s =
     (if \<not> useLocalStorage s then s
      else (let maxAge = (if aggressive then 1 * 24 * 60 * 60 * 1000 else 7 * 24 * 60 * 60 * 1000);
                stale = map fst (filter (\<lambda>e. now - lastAccess (snd e) > maxAge) (metadata s));
                keysToDelete =
                  (if aggressive \<and> stale = []
                   then map fst (take (length (metadata s) div 2)
                                   (sort_key (\<lambda>e. lastAccess (snd e)) (metadata s)))
                   else stale);
                s1 = fold (\<lambda>key t. t\<lparr>localStorage := (localStorage t)((cachePrefix @ key) := None),
                                      metadata := mapDelete key (metadata t)\<rparr>) keysToDelete s
            in if length keysToDelete > 0 then saveMetadata env s1 else s1))"

definition newCacheManager ::
  "'v browser \<Rightarrow> (string \<rightharpoonup> string) \<Rightarrow> int \<Rightarrow> nat \<Rightarrow> bool \<Rightarrow> 'v cacheManager" where
  "newCacheManager env storage now maxItems useStorage =
     cleanOldEntries env now False
       (loadMetadata env
          \<lparr>memoryCache = [], maxMemoryItems = maxItems, useLocalStorage = useStorage,
           metadata = [], localStorage = storage\<rparr>)"

definition cache_get :: "'v browser \<Rightarrow> int \<Rightarrow> 'v cacheManager \<Rightarrow> params \<Rightarrow> 'v cacheManager \<times> 'v option" where
  "cache_get env now s q =
     (let key = generateKey q
      in case map_of (memoryCache s) key of
           Some v \<Rightarrow> (s, Some v)
         | None \<Rightarrow>
             if useLocalStorage s
             then (case localStorage s (cachePrefix @ key) of
                     None \<Rightarrow> (s, None)
                   | Some cachedStr \<Rightarrow>
                       if cachedStr = [] then (s, None)
                       else (case parse env cachedStr of
                               None \<Rightarrow> (s, None)
                             | Some cached \<Rightarrow>
                                 (let s1 = enforceSizeLimit
                                             (s\<lparr>memoryCache := mapSet key cached (memoryCache s)\<rparr>);
                                      s2 = (case map_of (metadata s1) key of
                                              None \<Rightarrow> s1
                                            | Some m \<Rightarrow>
                                                saveMetadata env
                                                  (s1\<lparr>metadata :=
                                                        mapSet key (m\<lparr>lastAccess := now\<rparr>) (metadata s1)\<rparr>))
                                  in (s2, Some cached))))
             else (s, None))"

definition cache_set :: "'v browser \<Rightarrow> int \<Rightarrow> 'v cacheManager \<Rightarrow> params \<Rightarrow> 'v \<Rightarrow> 'v cacheManager" where
  "cache_set env now s q data =
     (let key = generateKey q;
          s1 = enforceSizeLimit (s\<lparr>memoryCache := mapSet key data (memoryCache s)\<rparr>)
      in if \<not> useLocalStorage s1 then s1
         else (case stringify env data of
                 None \<Rightarrow> s1
               | Some dataStr \<Rightarrow>
                   if length dataStr > 4 * 1024 * 1024 then s1
                   else (case setItemError env (localStorage s1) (cachePrefix @ key) dataStr of
                           Some e \<Rightarrow>
                             if e = QuotaExceededError then cleanOldEntries env now True s1 else s1
                         | None \<Rightarrow>
                             (let s2 = s1\<lparr>localStorage := (localStorage s1)((cachePrefix @ key) \<mapsto> dataStr)\<rparr>;
                                  s3 = (case map_of (metadata s2) key of
                                          None \<Rightarrow>
                                            s2\<lparr>metadata :=
                                                 mapSet key \<lparr>created = now, lastAccess = now,
                                                             meta_size = length dataStr\<rparr> (metadata s2)\<rparr>
                                        | Some m \<Rightarrow>
                                            s2\<lparr>metadata := mapSet key (m\<lparr>lastAccess := now\<rparr>) (metadata s2)\<rparr>)
                              in saveMetadata env s3))))"

text \<open>A sequence of calls on one cache.\<close>

datatype 'v cacheCall = Get params int | Set params 'v int

fun cacheStep :: "'v browser \<Rightarrow> 'v cacheManager \<Rightarrow> 'v cacheCall \<Rightarrow> 'v cacheManager" where
  "cacheStep env s (Get q now) = fst (cache_get env now s q)"
| "cacheStep env s (Set q data now) = cache_set env now s q data"

definition cacheRun :: "'v browser \<Rightarrow> 'v cacheManager \<Rightarrow> 'v cacheCall list \<Rightarrow> 'v cacheManager" where
  "cacheRun env s calls = foldl (cacheStep env) s calls"

section \<open>cache-manager.js: WorkerPool, chunk scheduling\<close>

definition poolSize :: "nat \<Rightarrow> nat" where
  "poolSize requested = min requested 8"

definition makeChunk :: "params \<Rightarrow> nat \<Rightarrow> nat \<Rightarrow> chunk" where
  "makeChunk q sx ex =
     \<lparr>projectionName = projectionName q, width = width q, height = height q,
      spacing = spacing q, showOceanDots = showOceanDots q,
      startX = sx, endX = ex, startY = 0, endY = height q\<rparr>"

text \<open>One iteration of the loop over worker indices; the state is \<open>(lastEndX, chunks)\<close>.\<close>

definition chunkIter :: "params \<Rightarrow> nat \<Rightarrow> nat \<times> chunk list \<Rightarrow> nat \<Rightarrow> nat \<times> chunk list" where
  "chunkIter q chunkWidth st i =
     (let lastEndX = fst st; chunks = snd st;
          startX0 = i * chunkWidth;
          endX0 = min (startX0 + chunkWidth) (width q);
          startX1 = js_floor_div startX0 (spacing q) * spacing q;
          startX2 = (if startX1 < lastEndX then lastEndX else startX1);
          endX1 = min (js_ceil_div endX0 (spacing q) * spacing q) (width q)
      in if startX2 < width q \<and> endX1 > startX2
         then (endX1, chunks @ [makeChunk q startX2 endX1])
         else (lastEndX, chunks))"

definition computeChunks :: "nat \<Rightarrow> params \<Rightarrow> chunk list" where
  "computeChunks numWorkers q =
     snd (foldl (chunkIter q (js_ceil_div (width q) numWorkers)) (0, []) [0..<numWorkers])"

section \<open>cache-manager.js: WorkerPool, boundary deduplication\<close>

text \<open>First pass: the step for one pair of adjacent chunks.\<close>

definition dropBoundary :: "real \<Rightarrow> dot list \<Rightarrow> dot list \<Rightarrow> dot list" where
  "dropBoundary spc currentChunk nextChunk =
     (if currentChunk = [] \<or> nextChunk = [] then nextChunk
      else (let currentMaxX = Max (set (map dot_x currentChunk));
                nextMinX = Min (set (map dot_x nextChunk))
            in if \<bar>currentMaxX - nextMinX\<bar> < spc
               then filter (\<lambda>d. js_round (dot_x d) \<noteq> js_round nextMinX) nextChunk
               else nextChunk))"

text \<open>
  The loop writes the filtered chunk back into the array, so the next iteration
  compares against the filtered chunk. The second component counts removed dots.
\<close>

function boundaryPass :: "real \<Rightarrow> dot list list \<Rightarrow> dot list list \<times> nat" where
  "boundaryPass spc (cur # nxt # rest) =
     (let nxt' = dropBoundary spc cur nxt;
          r = boundaryPass spc (nxt' # rest)
      in (cur # fst r, (length nxt - length nxt') + snd r))"
| "boundaryPass spc [cur] = ([cur], 0)"
| "boundaryPass spc [] = ([], 0)"
  by pat_completeness auto
termination
  by (relation "measure (\<lambda>(spc, rs). length rs)") auto

definition dotKey :: "dot \<Rightarrow> int \<times> int" where
  "dotKey d = (js_round (dot_x d), js_round (dot_y d))"

text \<open>Second pass: the coordinate map keeps the first dot of every key.\<close>

definition dotMapAdd :: "dot \<Rightarrow> ((int \<times> int) \<times> dot) list \<Rightarrow> ((int \<times> int) \<times> dot) list" where
  "dotMapAdd d dotMap = (if dotKey d \<in> fst ` set dotMap then dotMap else dotMap @ [(dotKey d, d)])"

definition finalPass :: "dot list \<Rightarrow> dot list" where
  "finalPass allDots = map snd (fold dotMapAdd allDots [])"

definition reconcile :: "real \<Rightarrow> dot list list \<Rightarrow> dot list \<times> nat" where
  "reconcile spc results =
     (let r = boundaryPass spc results;
          allDots0 = concat (fst r);
          allDots = finalPass allDots0
      in (allDots, snd r + (length allDots0 - length allDots)))"

section \<open>Notions used in the proofs\<close>

text \<open>A list of chunks tiles \<open>[a, b)\<close>: each starts where the previous one ended.\<close>

fun tiles :: "nat \<Rightarrow> chunk list \<Rightarrow> nat \<Rightarrow> bool" where
  "tiles a [] b = (a = b)"
| "tiles a (c # cs) b = (startX c = a \<and> a < endX c \<and> tiles (endX c) cs b)"

text \<open>The value of \<open>lastEndX\<close> after \<open>m\<close> iterations of the scheduling loop.\<close>

definition alignedEnd :: "params \<Rightarrow> nat \<Rightarrow> nat \<Rightarrow> nat" where
  "alignedEnd q chunkWidth m =
     min (js_ceil_div (min (m * chunkWidth) (width q)) (spacing q) * spacing q) (width q)"

definition covers :: "chunk \<Rightarrow> nat \<Rightarrow> bool" where
  "covers c v = (startX c \<le> v \<and> v < endX c)"

definition demoParams :: params where
  "demoParams = \<lparr>projectionName = ''geoMercator'', width = 10, height = 4, spacing = 5,
                  showOceanDots = False\<rparr>"

text \<open>The representation invariant of the memory tier: distinct keys, at most the cap.\<close>

definition memoryOk :: "'v cacheManager \<Rightarrow> bool" where
  "memoryOk s = (distinct (map fst (memoryCache s)) \<and> length (memoryCache s) \<le> maxMemoryItems s)"

text \<open>A browser whose JSON text of a number \<open>n\<close> is \<open>n\<close> characters long, with unlimited storage.\<close>

definition demoBrowser :: "nat browser" where
  "demoBrowser =
     \<lparr>stringify = (\<lambda>n. Some (replicate n CHR ''1'')), parse = (\<lambda>str. Some (length str)),
      stringifyMeta = (\<lambda>md. concat (map fst md)), parseMeta = (\<lambda>str. None),
      setItemError = (\<lambda>storage k v. None)\<rparr>"

definition demoParams2 :: params where
  "demoParams2 = \<lparr>projectionName = ''geoMercator'', width = 20, height = 4, spacing = 5,
                   showOceanDots = False\<rparr>"

text \<open>A cache of capacity one after one \<open>set\<close>.\<close>

definition demoCache :: "nat cacheManager" where
  "demoCache = cacheRun demoBrowser (newCacheManager demoBrowser Map.empty 0 1 True)
                 [Set demoParams 7 0]"

text \<open>Every entry of the coordinate map is stored under the key of its dot, once.\<close>

definition dotMapOk :: "((int \<times> int) \<times> dot) list \<Rightarrow> bool" where
  "dotMapOk dotMap = (distinct (map fst dotMap) \<and> map fst dotMap = map (\<lambda>e. dotKey (snd e)) dotMap)"

text \<open>
  Stand-ins for d3 on features made of longitude/latitude boxes: the centroid and the
  bounds are given, a point is contained when it lies in one of the boxes, the
  distance is the sum of the coordinate differences in radians, and the projection
  is the plate carr\'ee fitted to the canvas: a projection is the canvas size it was
  fitted to, the scale is the largest at which 360 by 180 degrees fit, and the map is
  centred. A canvas without area has scale zero and inverts to NaN.
\<close>

type_synonym box = "lonlat \<times> lonlat"

definition inBox :: "lonlat \<Rightarrow> box \<Rightarrow> bool" where
  "inBox p r = (fst (fst r) \<le> fst p \<and> fst p \<le> fst (snd r) \<and> snd (fst r) \<le> snd p \<and> snd p \<le> snd (snd r))"

definition plateInvert :: "nat \<times> nat \<Rightarrow> nat \<times> nat \<Rightarrow> (jsnum \<times> jsnum) option outcome" where
  "plateInvert canvas p =
     (let w = real (fst canvas); h = real (snd canvas); k = min (w / 360) (h / 180)
      in if k = 0 then Returns (Some (NaN, NaN))
         else Returns (Some (Fin ((real (fst p) - w / 2) / k), Fin ((h / 2 - real (snd p)) / k))))"

definition plateEnv :: "lonlat \<Rightarrow> box \<Rightarrow> box list \<Rightarrow> (nat \<times> nat) d3env" where
  "plateEnv centroid bnds boxes =
     \<lparr>geoBounds = (\<lambda>g. bnds), geoCentroid = (\<lambda>g. centroid),
      geoContains = (\<lambda>g p. Returns (list_ex (inBox p) boxes)),
      geoDistance = (\<lambda>p q. Returns ((\<bar>fst p - fst q\<bar> + \<bar>snd p - snd q\<bar>) * pi / 180)),
      setupProjection = (\<lambda>name w h. Returns (w, h)),
      invert = plateInvert\<rparr>"

definition boxRing :: "box \<Rightarrow> lonlat list" where
  "boxRing r = [fst r, (fst (fst r), snd (snd r)), snd r, (fst (snd r), snd (fst r)), fst r]"

definition boxFeature :: "string \<Rightarrow> box list \<Rightarrow> feature" where
  "boxFeature name boxes = \<lparr>properties_name = name, geometry = MultiPolygon (map (\<lambda>r. [boxRing r]) boxes)\<rparr>"

definition demoFeature :: feature where
  "demoFeature = boxFeature ''A'' [((-140, 42), (-53, 83))]"

text \<open>
  The candidate list of a cell: the circles in the order of \<open>countryCircles\<close>, each
  once for every loop step of its box that is stored under the key of the cell.
\<close>

definition cellEntries :: "cellKey \<Rightarrow> circle \<Rightarrow> circle list" where
  "cellEntries k e = map (\<lambda>latlon. e) (filter (\<lambda>latlon. wrappedCell latlon = k) (cellLoop (snd e)))"









text \<open>The module state before \<open>init\<close>.\<close>

definition blankWorker :: "(nat \<times> nat) worker" where
  "blankWorker = \<lparr>world = [], countryCircles = [], spatialGrid = Map.empty,
                   countryLookupMap = None, currentProjection = None\<rparr>"

text \<open>
  A feature classified as USA by its centroid, with its stand-in environment and the
  worker state that \<open>init\<close> builds for it.
\<close>

definition demoEnv :: "(nat \<times> nat) d3env" where
  "demoEnv = plateEnv (-97, 62) ((-140, 42), (-53, 83)) [((-140, 42), (-53, 83))]"

definition demoWorld :: "(nat \<times> nat) worker" where
  "demoWorld =
     blankWorker\<lparr>world := [demoFeature],
                 countryCircles := [(demoFeature, mainBounds (-97, 62)), (demoFeature, alaskaBounds)],
                 spatialGrid := initializeSpatialGrid
                   [(demoFeature, mainBounds (-97, 62)), (demoFeature, alaskaBounds)]\<rparr>"









text \<open>The demonstration world with a projection installed.\<close>

definition demoReady :: "(nat \<times> nat) worker" where
  "demoReady = demoWorld\<lparr>currentProjection := Some (360, 180)\<rparr>"

text \<open>An inverse projection that yields NaN, and a containment test that throws.\<close>

definition nanEnv :: "(nat \<times> nat) d3env" where
  "nanEnv = demoEnv\<lparr>invert := (\<lambda>proj p. Returns (Some (NaN, Fin 0)))\<rparr>"

definition throwingEnv :: "(nat \<times> nat) d3env" where
  "throwingEnv = demoEnv\<lparr>geoContains := (\<lambda>g p. Throws ''degenerate geometry'')\<rparr>"

text \<open>A lookup map request for a 2 by 2 canvas, and the worker state after it.\<close>

definition smallMapRequest :: lookupParams where
  "smallMapRequest = \<lparr>lp_width = 2, lp_height = 2, lp_projectionName = ''geoEquirectangular'',
                       lp_resolution = 2\<rparr>"

definition mapWorld :: "(nat \<times> nat) worker" where
  "mapWorld =
     demoWorld\<lparr>currentProjection := Some (2, 2),
                 countryLookupMap :=
                   Some \<lparr>map_data = [0], map_width = 1, map_height = 1, map_resolution = 2\<rparr>\<rparr>"

text \<open>
  A single-worker render of a 360 by 180 canvas with one grid point, which refits
  the projection, and the worker state after it: the map of the 2 by 2 canvas is
  still installed.
\<close>

definition updateQuery :: params where
  "updateQuery = \<lparr>projectionName = ''geoEquirectangular'', width = 360, height = 180,
                   spacing = 360, showOceanDots = False\<rparr>"

definition staleWorld :: "(nat \<times> nat) worker" where
  "staleWorld =
     demoReady\<lparr>countryLookupMap :=
                  Some \<lparr>map_data = [0], map_width = 1, map_height = 1, map_resolution = 2\<rparr>\<rparr>"

text \<open>A chunk of a 360 by 180 query that holds the single grid point (80, 25).\<close>

definition bigQuery :: params where
  "bigQuery = \<lparr>projectionName = ''geoEquirectangular'', width = 360, height = 180, spacing = 5,
                showOceanDots = True\<rparr>"

definition bigChunk :: chunk where
  "bigChunk = \<lparr>projectionName = ''geoEquirectangular'', width = 360, height = 180, spacing = 5,
                showOceanDots = True, startX = 80, endX = 85, startY = 25, endY = 30\<rparr>"

text \<open>Dots as the workers emit them: every \<open>x\<close> is a multiple of the spacing.\<close>

definition onGrid :: "nat \<Rightarrow> dot list \<Rightarrow> bool" where
  "onGrid s ds = list_all (\<lambda>d. \<exists>k::nat. dot_x d = real (k * s)) ds"

section \<open>Properties of the longitude wrap\<close>

lemma js_rem_simps:
  "js_rem 361 360 = 1" "js_rem (-1) 360 = -1" "js_rem 360 360 = 0" "js_rem 0 360 = 0"
  by (simp_all add: js_rem_def js_trunc_def ceiling_eq_iff floor_eq_iff)

text \<open>
  C5 (as stated). Of the four listed values of the wrap function the fourth,
  \<open>wrap(-180) = -180\<close>, does not hold: the guard \<open>lon <= -180\<close> moves \<open>-180\<close> to \<open>180\<close>.
\<close>

theorem wrapLongitude_minus_180_counterexample:
  "\<not> (wrapLongitude 181 = -179 \<and> wrapLongitude (-181) = 179
      \<and> wrapLongitude 180 = 180 \<and> wrapLongitude (-180) = -180)"
  by (simp add: wrapLongitude_def js_rem_simps)

text \<open>
  C5 (amended). \<open>wrap(181) = -179\<close>, \<open>wrap(-181) = 179\<close>, \<open>wrap(180) = 180\<close> and
  \<open>wrap(-180) = 180\<close>: the boundary value is normalised to the closed end of
  \<open>(-180, 180]\<close>.
\<close>

theorem wrapLongitude_values:
  "wrapLongitude 181 = -179 \<and> wrapLongitude (-181) = 179
   \<and> wrapLongitude 180 = 180 \<and> wrapLongitude (-180) = 180"
  by (simp add: wrapLongitude_def js_rem_simps)

section \<open>The chunk scheduler partitions the grid columns\<close>

lemma js_floor_div_eq: "js_floor_div a b = a div b"
  by (simp add: js_floor_div_def floor_divide_of_nat_eq)


lemma js_ceil_div_eq:
  assumes b: "0 < b"
  shows "js_ceil_div a b = (a + b - 1) div b"
proof -
  define q where "q = (a + b - 1) div b"
  have 1: "q * b \<le> a + b - 1" unfolding q_def by simp
  have 2: "a + b - 1 < q * b + b"
    unfolding q_def using dividend_less_div_times[OF b, of "a + b - 1"] by simp
  from 2 b have "a \<le> q * b" by arith
  then have "real a \<le> real q * real b"
    by (metis of_nat_le_iff of_nat_mult)
  then have up: "real a / real b \<le> real q"
    using b by (simp add: pos_divide_le_eq)
  from 1 b have "q * b < a + b" by arith
  then have "real q * real b < real a + real b"
    by (metis of_nat_less_iff of_nat_mult of_nat_add)
  then have "(real q - 1) * real b < real a"
    by (simp add: algebra_simps)
  then have lo: "real q - 1 < real a / real b"
    using b by (simp add: pos_less_divide_eq)
  have "\<lceil>real a / real b\<rceil> = int q"
    by (rule ceiling_unique) (use lo up in simp_all)
  then show ?thesis by (simp add: js_ceil_div_def q_def)
qed

lemma js_ceil_div_ge: "0 < b \<Longrightarrow> a \<le> js_ceil_div a b * b"
  using dividend_less_div_times[of b "a + b - 1"] by (simp add: js_ceil_div_eq) 

lemma js_ceil_div_mono: "0 < b \<Longrightarrow> a \<le> a' \<Longrightarrow> js_ceil_div a b \<le> js_ceil_div a' b"
  by (simp add: js_ceil_div_eq div_le_mono)

lemma js_ceil_div_0: "0 < b \<Longrightarrow> js_ceil_div 0 b = 0"
  by (simp add: js_ceil_div_eq)




lemma tiles_snoc:
  "tiles a (cs @ [c]) b = (tiles a cs (startX c) \<and> startX c < endX c \<and> endX c = b)"
  by (induction cs arbitrary: a) auto


lemma alignedEnd_le: "alignedEnd p cw m \<le> width p"
  by (simp add: alignedEnd_def)

lemma alignedEnd_mono:
  "0 < spacing p \<Longrightarrow> alignedEnd p cw m \<le> alignedEnd p cw (Suc m)"
  unfolding alignedEnd_def
  by (intro min.mono mult_le_mono1 js_ceil_div_mono) simp_all

lemma alignedEnd_full:
  assumes "0 < spacing p" "width p \<le> m * cw"
  shows "alignedEnd p cw m = width p"
  using assms js_ceil_div_ge[of "spacing p" "width p"]
  by (simp add: alignedEnd_def min_absorb2)

lemma chunkIter_step:
  assumes s: "0 < spacing p"
    and inv: "tiles 0 cs (alignedEnd p cw m)"
  shows "\<exists>cs'. chunkIter p cw (alignedEnd p cw m, cs) m = (alignedEnd p cw (Suc m), cs')
           \<and> tiles 0 cs' (alignedEnd p cw (Suc m))"
proof -
  let ?E = "alignedEnd p cw m" and ?E' = "alignedEnd p cw (Suc m)"
  let ?s1 = "js_floor_div (m * cw) (spacing p) * spacing p"
  let ?s2 = "if ?s1 < ?E then ?E else ?s1"
  have e1: "min (js_ceil_div (min (m * cw + cw) (width p)) (spacing p) * spacing p) (width p) = ?E'"
    by (simp add: alignedEnd_def add.commute)
  have mono: "?E \<le> ?E'" by (rule alignedEnd_mono[OF s])
  have le: "?E \<le> width p" "?E' \<le> width p" by (rule alignedEnd_le)+
  have s1_le: "?s1 \<le> m * cw" by (simp add: js_floor_div_eq)
  show ?thesis
  proof (cases "m * cw \<le> width p")
    case True
    have "m * cw \<le> js_ceil_div (m * cw) (spacing p) * spacing p"
      by (rule js_ceil_div_ge[OF s])
    with True s1_le have "?s1 \<le> ?E"
      unfolding alignedEnd_def min_absorb1[OF True] by linarith
    then have s2: "?s2 = ?E" by simp
    show ?thesis
    proof (cases "?E < width p \<and> ?E < ?E'")
      case True
      then have "chunkIter p cw (?E, cs) m = (?E', cs @ [makeChunk p ?E ?E'])"
        unfolding chunkIter_def Let_def fst_conv snd_conv e1 s2 by simp
      moreover have "tiles 0 (cs @ [makeChunk p ?E ?E']) ?E'"
        using True inv by (simp add: tiles_snoc makeChunk_def)
      ultimately show ?thesis by blast
    next
      case False
      then have eq: "?E' = ?E" using mono le by linarith
      from False have "chunkIter p cw (?E, cs) m = (?E, cs)"
        unfolding chunkIter_def Let_def fst_conv snd_conv e1 s2 by auto
      with inv eq show ?thesis by simp
    qed
  next
    case False
    then have full: "?E = width p" "?E' = width p"
      using s by (auto intro!: alignedEnd_full)
    then have "\<not> ?s2 < width p" by simp
    then have "chunkIter p cw (?E, cs) m = (?E, cs)"
      unfolding chunkIter_def Let_def fst_conv snd_conv e1 by simp
    with inv full show ?thesis by simp
  qed
qed

lemma chunk_loop_invariant:
  assumes s: "0 < spacing p"
  shows "\<exists>cs. foldl (chunkIter p cw) (0, []) [0..<m] = (alignedEnd p cw m, cs)
           \<and> tiles 0 cs (alignedEnd p cw m)"
proof (induction m)
  case 0
  show ?case using s by (simp add: alignedEnd_def js_ceil_div_0)
next
  case (Suc m)
  then obtain cs where cs: "foldl (chunkIter p cw) (0, []) [0..<m] = (alignedEnd p cw m, cs)"
    and t: "tiles 0 cs (alignedEnd p cw m)" by blast
  from chunkIter_step[OF s t] cs show ?case by simp
qed

lemma computeChunks_tiles:
  assumes "0 < spacing p" "0 < n"
  shows "tiles 0 (computeChunks n p) (width p)"
proof -
  let ?cw = "js_ceil_div (width p) n"
  obtain cs where cs: "foldl (chunkIter p ?cw) (0, []) [0..<n] = (alignedEnd p ?cw n, cs)"
    and t: "tiles 0 cs (alignedEnd p ?cw n)"
    using chunk_loop_invariant[OF assms(1)] by blast
  have "width p \<le> n * ?cw"
    using js_ceil_div_ge[OF assms(2), of "width p"] by (simp add: mult.commute)
  then have "alignedEnd p ?cw n = width p"
    by (rule alignedEnd_full[OF assms(1)])
  with cs t show ?thesis by (simp add: computeChunks_def)
qed


lemma tiles_le: "tiles a cs b \<Longrightarrow> a \<le> b"
  by (induction cs arbitrary: a) fastforce+

lemma tiles_count:
  "tiles a cs b \<Longrightarrow> length (filter (\<lambda>c. covers c x) cs) = (if a \<le> x \<and> x < b then 1 else 0)"
proof (induction cs arbitrary: a)
  case Nil
  then show ?case by simp
next
  case (Cons c cs)
  then have t: "tiles (endX c) cs b" and st: "startX c = a" "a < endX c" by simp_all
  from tiles_le[OF t] have "endX c \<le> b" .
  with Cons.IH[OF t] st show ?case by (auto simp: covers_def)
qed

lemma tiles_bounds: "tiles a cs b \<Longrightarrow> c \<in> set cs \<Longrightarrow> a \<le> startX c \<and> endX c \<le> b"
proof (induction cs arbitrary: a)
  case Nil
  then show ?case by simp
next
  case (Cons d cs)
  then have t: "tiles (endX d) cs b" and st: "startX d = a" "a < endX d" by simp_all
  from Cons.prems(2) have "c = d \<or> c \<in> set cs" by simp
  then show ?case
  proof
    assume "c = d" with st tiles_le[OF t] show ?thesis by simp
  next
    assume "c \<in> set cs" from Cons.IH[OF t this] st show ?thesis by simp
  qed
qed

lemma tiles_ordered:
  "tiles a cs b \<Longrightarrow> i < j \<Longrightarrow> j < length cs \<Longrightarrow> endX (cs ! i) \<le> startX (cs ! j)"
proof (induction cs arbitrary: a i j)
  case Nil
  then show ?case by simp
next
  case (Cons d cs)
  then have t: "tiles (endX d) cs b" by simp
  show ?case
  proof (cases i)
    case 0
    with Cons.prems obtain j' where j: "j = Suc j'" "j' < length cs"
      by (cases j) auto
    then have "cs ! j' \<in> set cs" by simp
    from tiles_bounds[OF t this] 0 j show ?thesis by simp
  next
    case (Suc i')
    with Cons.prems obtain j' where j: "j = Suc j'" "i' < j'" "j' < length cs"
      by (cases j) auto
    from Cons.IH[OF t j(2,3)] Suc j show ?thesis by simp
  qed
qed

text \<open>
  C2. For \<open>width \<ge> 1\<close>, \<open>spacing \<ge> 1\<close> and \<open>workerCount \<ge> 1\<close> the chunk ranges
  \<open>[startX, endX)\<close> computed by the scheduler are pairwise disjoint, and every grid
  column \<open>k * spacing < width\<close> lies in exactly one of them.
\<close>

theorem chunk_partition:
  assumes "1 \<le> width p" "1 \<le> spacing p" "1 \<le> numWorkers"
  shows "(\<forall>i j. i < j \<and> j < length (computeChunks numWorkers p) \<longrightarrow>
            {startX (computeChunks numWorkers p ! i) ..< endX (computeChunks numWorkers p ! i)}
            \<inter> {startX (computeChunks numWorkers p ! j) ..< endX (computeChunks numWorkers p ! j)} = {})
       \<and> (\<forall>k. k * spacing p < width p \<longrightarrow>
            length (filter (\<lambda>c. startX c \<le> k * spacing p \<and> k * spacing p < endX c)
                      (computeChunks numWorkers p)) = 1)"
proof -
  have t: "tiles 0 (computeChunks numWorkers p) (width p)"
    using assms by (intro computeChunks_tiles) simp_all
  have "\<And>i j. i < j \<Longrightarrow> j < length (computeChunks numWorkers p) \<Longrightarrow>
            {startX (computeChunks numWorkers p ! i) ..< endX (computeChunks numWorkers p ! i)}
            \<inter> {startX (computeChunks numWorkers p ! j) ..< endX (computeChunks numWorkers p ! j)} = {}"
    using tiles_ordered[OF t] by fastforce
  moreover have "\<And>k. k * spacing p < width p \<Longrightarrow>
            length (filter (\<lambda>c. startX c \<le> k * spacing p \<and> k * spacing p < endX c)
                      (computeChunks numWorkers p)) = 1"
    using tiles_count[OF t] by (simp add: covers_def)
  ultimately show ?thesis by blast
qed


text \<open>On the demonstration query the scheduler yields the two chunks \<open>[0,5)\<close> and \<open>[5,10)\<close>.\<close>

lemma computeChunks_demo:
  "map (\<lambda>c. (startX c, endX c)) (computeChunks 8 demoParams) = [(0, 5), (5, 10)]"
  by (simp add: computeChunks_def demoParams_def chunkIter_def makeChunk_def upt_rec
      js_floor_div_eq js_ceil_div_eq)


theorem chunk_partition_witness:
  "1 \<le> width demoParams \<and> 1 \<le> spacing demoParams \<and> (1::nat) \<le> 8
   \<and> {startX (computeChunks 8 demoParams ! 0) ..< endX (computeChunks 8 demoParams ! 0)}
       \<inter> {startX (computeChunks 8 demoParams ! 1) ..< endX (computeChunks 8 demoParams ! 1)} = {}
   \<and> length (filter (\<lambda>c. startX c \<le> 1 * spacing demoParams \<and> 1 * spacing demoParams < endX c)
                (computeChunks 8 demoParams)) = 1"
proof -
  have h: "1 \<le> width demoParams" "1 \<le> spacing demoParams" "(1::nat) \<le> 8"
    by (simp_all add: demoParams_def)
  have "length (map (\<lambda>c. (startX c, endX c)) (computeChunks 8 demoParams)) = 2"
    unfolding computeChunks_demo by simp
  then have len: "(0::nat) < 1 \<and> 1 < length (computeChunks 8 demoParams)" by simp
  have col: "1 * spacing demoParams < width demoParams" by (simp add: demoParams_def)
  from chunk_partition [OF h] len col h show ?thesis by blast
qed

text \<open>
  Every chunk starts on a multiple of the spacing, so the column loop of a worker,
  which steps from \<open>startX\<close> by the spacing, visits exactly the grid columns of its
  range.
\<close>

lemma alignedEnd_dvd:
  "alignedEnd q cw m < width q \<Longrightarrow> spacing q dvd alignedEnd q cw m"
  by (auto simp: alignedEnd_def min_def split: if_splits)

lemma chunkIter_aligned:
  assumes "\<forall>c \<in> set cs. spacing q dvd startX c"
    and "chunkIter q cw (alignedEnd q cw m, cs) m = (e, cs')"
    and "0 < spacing q" "tiles 0 cs (alignedEnd q cw m)"
  shows "\<forall>c \<in> set cs'. spacing q dvd startX c"
proof -
  obtain cs'' where c: "chunkIter q cw (alignedEnd q cw m, cs) m = (alignedEnd q cw (Suc m), cs'')"
    and t: "tiles 0 cs'' (alignedEnd q cw (Suc m))"
    using chunkIter_step [OF assms(3,4)] by blast
  with assms(2) have eq: "cs' = cs''" by simp
  have "cs' = cs \<or> (\<exists>x. cs' = cs @ [x])"
    using assms(2) by (auto simp: chunkIter_def Let_def split: if_splits)
  then show ?thesis
  proof
    assume "cs' = cs" with assms(1) show ?thesis by simp
  next
    assume "\<exists>x. cs' = cs @ [x]"
    then obtain x where x: "cs' = cs @ [x]" by blast
    from t eq x have "tiles 0 (cs @ [x]) (alignedEnd q cw (Suc m))" by simp
    then have "tiles 0 cs (startX x)" "startX x < endX x" "endX x = alignedEnd q cw (Suc m)"
      unfolding tiles_snoc by simp_all
    moreover have "tiles 0 cs a \<Longrightarrow> tiles 0 cs b \<Longrightarrow> a = b" for a b
      by (induction cs arbitrary: a b rule: rev_induct) (auto simp: tiles_snoc)
    ultimately have sx: "startX x = alignedEnd q cw m" using assms(4) by blast
    from \<open>startX x < endX x\<close> \<open>endX x = alignedEnd q cw (Suc m)\<close> sx
    have "alignedEnd q cw m < width q"
      using alignedEnd_le [of q cw "Suc m"] by simp
    from alignedEnd_dvd [OF this] sx x assms(1) show ?thesis by simp
  qed
qed

lemma chunk_loop_aligned:
  assumes s: "0 < spacing q"
  shows "\<forall>c \<in> set (snd (foldl (chunkIter q cw) (0, []) [0..<m])). spacing q dvd startX c"
proof (induction m)
  case 0
  show ?case by simp
next
  case (Suc m)
  obtain cs where cs: "foldl (chunkIter q cw) (0, []) [0..<m] = (alignedEnd q cw m, cs)"
    and t: "tiles 0 cs (alignedEnd q cw m)"
    using chunk_loop_invariant [OF s] by blast
  obtain e cs' where st: "chunkIter q cw (alignedEnd q cw m, cs) m = (e, cs')"
    by (cases "chunkIter q cw (alignedEnd q cw m, cs) m")
  from Suc cs have "\<forall>c \<in> set cs. spacing q dvd startX c" by simp
  from chunkIter_aligned [OF this st s t] cs st show ?case by simp
qed

lemma chunk_starts_aligned:
  "0 < spacing q \<Longrightarrow> c \<in> set (computeChunks n q) \<Longrightarrow> spacing q dvd startX c"
  using chunk_loop_aligned [of q "js_ceil_div (width q) n" n] by (simp add: computeChunks_def)

lemma stepsFrom_mem:
  "v \<in> set (stepsFrom a b s) \<longleftrightarrow> 0 < s \<and> a \<le> v \<and> v < b \<and> s dvd (v - a)"
proof (induction a b s rule: stepsFrom.induct)
  case (1 a b s)
  show ?case
  proof (cases "a < b \<and> 0 < s")
    case False
    then show ?thesis by (subst stepsFrom.simps) auto
  next
    case True
    have "a \<le> v \<and> s dvd (v - a) \<longleftrightarrow> v = a \<or> (a + s \<le> v \<and> s dvd (v - (a + s)))"
    proof (cases "v = a")
      case True
      then show ?thesis by simp
    next
      case False
      show ?thesis
      proof
        assume h: "a \<le> v \<and> s dvd (v - a)"
        with False have "0 < v - a" by simp
        with h have "s \<le> v - a" by (auto dest: dvd_imp_le)
        with h have "a + s \<le> v" by arith
        moreover have "s dvd (v - a - s)"
          by (rule dvd_diff_nat) (use h in simp_all)
        then have "s dvd (v - (a + s))" by (simp only: diff_diff_add)
        ultimately show "v = a \<or> (a + s \<le> v \<and> s dvd (v - (a + s)))" by simp
      next
        assume "v = a \<or> (a + s \<le> v \<and> s dvd (v - (a + s)))"
        with False have h: "a + s \<le> v" "s dvd (v - (a + s))" by simp_all
        from h(2) have "s dvd (v - (a + s) + s)" by (rule dvd_add) simp
        moreover from h(1) have "v - (a + s) + s = v - a" by arith
        ultimately have "s dvd (v - a)" by (simp only:)
        moreover from h(1) have "a \<le> v" by arith
        ultimately show "a \<le> v \<and> s dvd (v - a)" by (rule conjI [rotated])
      qed
    qed
    with True "1.IH" [OF True] show ?thesis
      by (subst stepsFrom.simps) auto
  qed
qed

lemma chunk_columns:
  assumes "0 < spacing q" "c \<in> set (computeChunks n q)"
  shows "set (stepsFrom (startX c) (endX c) (spacing q))
           = {v. startX c \<le> v \<and> v < endX c \<and> spacing q dvd v}"
proof -
  from chunk_starts_aligned [OF assms] have d: "spacing q dvd startX c" .
  have "spacing q dvd (v - startX c) \<longleftrightarrow> spacing q dvd v" if "startX c \<le> v" for v
  proof -
    from that have "v = (v - startX c) + startX c" by simp
    then have "spacing q dvd v \<longleftrightarrow> spacing q dvd ((v - startX c) + startX c)" by simp
    also have "\<dots> \<longleftrightarrow> spacing q dvd (v - startX c)" using d by (rule dvd_add_left_iff)
    finally show ?thesis by simp
  qed
  with assms(1) show ?thesis by (auto simp: stepsFrom_mem)
qed

section \<open>The memory tier of the cache\<close>

lemma mapSet_keys:
  "map fst (mapSet k v m) = (if k \<in> fst ` set m then map fst m else map fst m @ [k])"
  by (induction m) auto

lemma mapSet_new: "k \<notin> fst ` set m \<Longrightarrow> mapSet k v m = m @ [(k, v)]"
  by (induction m) auto

lemma mapSet_length:
  "length (mapSet k v m) = (if k \<in> fst ` set m then length m else Suc (length m))"
  using arg_cong [OF mapSet_keys, of length k v m] by (simp split: if_splits)

lemma mapSet_distinct: "distinct (map fst m) \<Longrightarrow> distinct (map fst (mapSet k v m))"
  by (auto simp: mapSet_keys)

lemma map_of_mapSet: "map_of (mapSet k v m) k = Some v"
  by (induction m) auto

lemma mapDelete_first:
  "distinct (map fst m) \<Longrightarrow> m \<noteq> [] \<Longrightarrow> mapDelete (fst (hd m)) m = tl m"
  by (cases m) (auto simp: mapDelete_def filter_id_conv rev_image_eqI)

lemma map_of_mapDelete: "k' \<noteq> k \<Longrightarrow> map_of (mapDelete k' m) k = map_of m k"
  by (induction m) (auto simp: mapDelete_def)

lemma saveMetadata_memory [simp]:
  "memoryCache (saveMetadata env s) = memoryCache s"
  "maxMemoryItems (saveMetadata env s) = maxMemoryItems s"
  "useLocalStorage (saveMetadata env s) = useLocalStorage s"
  by (simp_all add: saveMetadata_def Let_def split: option.splits)

lemma cleanFold_memory:
  "memoryCache (fold (\<lambda>key t. t\<lparr>localStorage := (localStorage t)((cachePrefix @ key) := None),
                                 metadata := mapDelete key (metadata t)\<rparr>) ks s) = memoryCache s
   \<and> maxMemoryItems (fold (\<lambda>key t. t\<lparr>localStorage := (localStorage t)((cachePrefix @ key) := None),
                                 metadata := mapDelete key (metadata t)\<rparr>) ks s) = maxMemoryItems s
   \<and> useLocalStorage (fold (\<lambda>key t. t\<lparr>localStorage := (localStorage t)((cachePrefix @ key) := None),
                                 metadata := mapDelete key (metadata t)\<rparr>) ks s) = useLocalStorage s"
  by (induction ks arbitrary: s) simp_all

lemma cleanOldEntries_memory [simp]:
  "memoryCache (cleanOldEntries env now aggressive s) = memoryCache s"
  "maxMemoryItems (cleanOldEntries env now aggressive s) = maxMemoryItems s"
  "useLocalStorage (cleanOldEntries env now aggressive s) = useLocalStorage s"
  by (simp_all add: cleanOldEntries_def Let_def cleanFold_memory)

lemma loadMetadata_memory [simp]:
  "memoryCache (loadMetadata env s) = memoryCache s"
  "maxMemoryItems (loadMetadata env s) = maxMemoryItems s"
  by (simp_all add: loadMetadata_def split: option.splits)

lemma enforceSizeLimit_fields [simp]:
  "maxMemoryItems (enforceSizeLimit s) = maxMemoryItems s"
  "useLocalStorage (enforceSizeLimit s) = useLocalStorage s"
  "metadata (enforceSizeLimit s) = metadata s"
  "localStorage (enforceSizeLimit s) = localStorage s"
  by (simp_all add: enforceSizeLimit_def Let_def)

lemma enforceSizeLimit_memory:
  assumes "distinct (map fst (memoryCache s))"
  shows "memoryCache (enforceSizeLimit s) =
           (if length (memoryCache s) > maxMemoryItems s then tl (memoryCache s) else memoryCache s)"
proof (cases "length (memoryCache s) > maxMemoryItems s")
  case True
  then have "memoryCache s \<noteq> []" by auto
  with assms True show ?thesis
    by (simp add: enforceSizeLimit_def Let_def mapDelete_first)
next
  case False
  then show ?thesis by (simp add: enforceSizeLimit_def)
qed

text \<open>Inserting one entry into a tier that respects the cap, then enforcing the cap.\<close>

lemma insert_then_enforce:
  assumes ok: "memoryOk s"
  shows "memoryOk (enforceSizeLimit (s\<lparr>memoryCache := mapSet k v (memoryCache s)\<rparr>))"
    and "memoryCache (enforceSizeLimit (s\<lparr>memoryCache := mapSet k v (memoryCache s)\<rparr>)) =
           (if k \<notin> fst ` set (memoryCache s) \<and> length (memoryCache s) = maxMemoryItems s
            then tl (memoryCache s @ [(k, v)])
            else mapSet k v (memoryCache s))"
proof -
  let ?s' = "s\<lparr>memoryCache := mapSet k v (memoryCache s)\<rparr>"
  from ok have d: "distinct (map fst (memoryCache ?s'))"
    by (simp add: memoryOk_def mapSet_distinct)
  from ok have len: "length (memoryCache s) \<le> maxMemoryItems s" by (simp add: memoryOk_def)
  show "memoryCache (enforceSizeLimit ?s') =
           (if k \<notin> fst ` set (memoryCache s) \<and> length (memoryCache s) = maxMemoryItems s
            then tl (memoryCache s @ [(k, v)])
            else mapSet k v (memoryCache s))"
    using len by (auto simp: enforceSizeLimit_memory [OF d] mapSet_length mapSet_new)
  have "distinct (map fst (tl (memoryCache ?s')))"
    using d by (simp add: map_tl distinct_tl)
  with d len show "memoryOk (enforceSizeLimit ?s')"
    by (auto simp: memoryOk_def enforceSizeLimit_memory [OF d] mapSet_length)
qed

lemma cache_set_memory:
  "memoryCache (cache_set env now s q data) =
     memoryCache (enforceSizeLimit (s\<lparr>memoryCache := mapSet (generateKey q) data (memoryCache s)\<rparr>))"
  "maxMemoryItems (cache_set env now s q data) = maxMemoryItems s"
  by (simp_all add: cache_set_def Let_def split: option.splits)

lemma cache_set_ok: "memoryOk s \<Longrightarrow> memoryOk (cache_set env now s q data)"
  using insert_then_enforce(1) [of s "generateKey q" data]
  by (simp add: memoryOk_def cache_set_memory)

lemma cache_get_hit:
  "map_of (memoryCache s) (generateKey q) = Some v \<Longrightarrow> cache_get env now s q = (s, Some v)"
  by (simp add: cache_get_def)

lemma cache_get_ok:
  assumes "memoryOk s"
  shows "memoryOk (fst (cache_get env now s q))"
proof -
  have *: "memoryOk (enforceSizeLimit (s\<lparr>memoryCache := mapSet (generateKey q) v (memoryCache s)\<rparr>))" for v
    by (rule insert_then_enforce(1) [OF assms])
  have **: "memoryOk (saveMetadata env (t\<lparr>metadata := md\<rparr>))" if "memoryOk t" for t :: "'a cacheManager" and md
    using that by (simp add: memoryOk_def)
  show ?thesis
    using assms * **
    by (auto simp: cache_get_def Let_def split: option.splits)
qed

lemma cache_get_max [simp]: "maxMemoryItems (fst (cache_get env now s q)) = maxMemoryItems s"
  by (simp add: cache_get_def Let_def split: option.splits)

lemma cacheStep_ok: "memoryOk s \<Longrightarrow> memoryOk (cacheStep env s c)"
  by (cases c) (simp_all add: cache_get_ok cache_set_ok)

lemma cacheStep_max [simp]: "maxMemoryItems (cacheStep env s c) = maxMemoryItems s"
  by (cases c) (simp_all add: cache_set_memory)

lemma cacheRun_ok: "memoryOk s \<Longrightarrow> memoryOk (cacheRun env s calls)"
  unfolding cacheRun_def by (induction calls arbitrary: s) (simp_all add: cacheStep_ok)

lemma cacheRun_max [simp]: "maxMemoryItems (cacheRun env s calls) = maxMemoryItems s"
  unfolding cacheRun_def by (induction calls arbitrary: s) simp_all

lemma newCacheManager_ok: "memoryOk (newCacheManager env storage now n u)"
  by (simp add: newCacheManager_def memoryOk_def)

lemma newCacheManager_max [simp]: "maxMemoryItems (newCacheManager env storage now n u) = n"
  by (simp add: newCacheManager_def)

lemma reachable_ok: "memoryOk (cacheRun env (newCacheManager env storage start n u) calls)"
  by (rule cacheRun_ok [OF newCacheManager_ok])

text \<open>
  C8. After any sequence of \<open>get\<close> and \<open>set\<close> calls on a cache constructed with cap \<open>n\<close>,
  the memory tier holds at most \<open>n\<close> entries; a \<open>set\<close> of a new key into a full tier
  drops the first entry in insertion order and appends the new one; a \<open>get\<close> that hits
  the memory tier leaves the cache, and so the order of the tier, unchanged.
\<close>

theorem memory_tier_cap:
  "length (memoryCache (cacheRun env (newCacheManager env storage start n u) calls)) \<le> n
   \<and> (generateKey q \<notin> fst ` set (memoryCache (cacheRun env (newCacheManager env storage start n u) calls))
        \<and> length (memoryCache (cacheRun env (newCacheManager env storage start n u) calls)) = n
      \<longrightarrow> memoryCache (cache_set env now (cacheRun env (newCacheManager env storage start n u) calls) q data)
          = tl (memoryCache (cacheRun env (newCacheManager env storage start n u) calls)
                @ [(generateKey q, data)]))
   \<and> (generateKey q' \<in> fst ` set (memoryCache (cacheRun env (newCacheManager env storage start n u) calls))
      \<longrightarrow> fst (cache_get env now' (cacheRun env (newCacheManager env storage start n u) calls) q')
          = cacheRun env (newCacheManager env storage start n u) calls)"
proof -
  let ?s = "cacheRun env (newCacheManager env storage start n u) calls"
  have ok: "memoryOk ?s" by (rule reachable_ok)
  have mx: "maxMemoryItems ?s = n" by simp
  from ok mx have 1: "length (memoryCache ?s) \<le> n" by (simp add: memoryOk_def)
  have 2: "memoryCache (cache_set env now ?s q data) = tl (memoryCache ?s @ [(generateKey q, data)])"
    if "generateKey q \<notin> fst ` set (memoryCache ?s)" "length (memoryCache ?s) = n"
    using that insert_then_enforce(2) [OF ok, of "generateKey q" data] mx
    by (simp add: cache_set_memory)
  have 3: "fst (cache_get env now' ?s q') = ?s"
    if "generateKey q' \<in> fst ` set (memoryCache ?s)"
  proof -
    from that obtain v where "map_of (memoryCache ?s) (generateKey q') = Some v"
      by (metis map_of_eq_None_iff not_None_eq)
    then show ?thesis by (simp add: cache_get_hit)
  qed
  from 1 2 3 show ?thesis by blast
qed

lemma demoCache_memory: "memoryCache demoCache = [(generateKey demoParams, 7)]"
  by (simp add: demoCache_def cacheRun_def cache_set_memory newCacheManager_def
      enforceSizeLimit_def)

lemma demo_keys_differ: "generateKey demoParams2 \<noteq> generateKey demoParams"
  by (simp add: generateKey_def demoParams_def demoParams2_def showNat.simps)

theorem memory_tier_cap_witness:
  "generateKey demoParams2 \<notin> fst ` set (memoryCache demoCache)
   \<and> length (memoryCache demoCache) = 1
   \<and> generateKey demoParams \<in> fst ` set (memoryCache demoCache)
   \<and> length (memoryCache demoCache) \<le> 1
   \<and> memoryCache (cache_set demoBrowser 1 demoCache demoParams2 9)
       = tl (memoryCache demoCache @ [(generateKey demoParams2, 9)])
   \<and> fst (cache_get demoBrowser 2 demoCache demoParams) = demoCache"
proof -
  have h: "generateKey demoParams2 \<notin> fst ` set (memoryCache demoCache)"
      "length (memoryCache demoCache) = 1"
      "generateKey demoParams \<in> fst ` set (memoryCache demoCache)"
    using demo_keys_differ by (simp_all add: demoCache_memory)
  from h memory_tier_cap [where env = demoBrowser and storage = Map.empty and start = 0
      and n = 1 and u = True and calls = "[Set demoParams 7 0]" and q = demoParams2
      and now = 1 and data = 9 and q' = demoParams and now' = 2]
  show ?thesis unfolding demoCache_def by blast
qed

text \<open>
  C10 (as stated). On a cache constructed with a memory capacity of zero, \<open>set\<close> of
  an entry whose JSON text is longer than 4 MiB stores the entry in the memory tier
  and \<open>enforceSizeLimit\<close> removes it at once; nothing is written to \<open>localStorage\<close>,
  and the next \<open>get\<close> with the same parameters returns null.
\<close>

theorem oversize_entry_capacity_zero_counterexample:
  "stringify demoBrowser 4194305 = Some (replicate 4194305 CHR ''1'')
   \<and> length (replicate 4194305 CHR ''1'') > 4 * 1024 * 1024
   \<and> memoryCache (cache_set demoBrowser 1 (newCacheManager demoBrowser Map.empty 0 0 True)
                     demoParams2 4194305) = []
   \<and> localStorage (cache_set demoBrowser 1 (newCacheManager demoBrowser Map.empty 0 0 True)
                      demoParams2 4194305) = Map.empty
   \<and> snd (cache_get demoBrowser 2
             (cache_set demoBrowser 1 (newCacheManager demoBrowser Map.empty 0 0 True)
                demoParams2 4194305) demoParams2) = None"
proof -
  have n: "newCacheManager demoBrowser Map.empty 0 0 True
             = \<lparr>memoryCache = [], maxMemoryItems = 0, useLocalStorage = True, metadata = [],
                localStorage = Map.empty\<rparr>"
    by (simp add: newCacheManager_def loadMetadata_def cleanOldEntries_def Let_def)
  have s: "cache_set demoBrowser 1 (newCacheManager demoBrowser Map.empty 0 0 True)
             demoParams2 4194305
           = \<lparr>memoryCache = [], maxMemoryItems = 0, useLocalStorage = True, metadata = [],
              localStorage = Map.empty\<rparr>"
    unfolding n by (simp add: cache_set_def Let_def enforceSizeLimit_def mapDelete_def
        demoBrowser_def)
  show ?thesis
    unfolding s by (simp add: cache_get_def Let_def demoBrowser_def)
qed

text \<open>
  C10 (amended). When the JSON text of an entry is longer than 4 MiB, \<open>set\<close> on a
  cache of capacity at least one keeps the entry in the memory tier, so that the
  next \<open>get\<close> with the same parameters returns it, and leaves \<open>localStorage\<close> and the
  metadata as they were.
\<close>

theorem oversize_entry_memory_only:
  assumes "1 \<le> n" "stringify env data = Some dataStr" "length dataStr > 4 * 1024 * 1024"
  shows "localStorage (cache_set env now (cacheRun env (newCacheManager env storage start n u) calls) q data)
           = localStorage (cacheRun env (newCacheManager env storage start n u) calls)
       \<and> metadata (cache_set env now (cacheRun env (newCacheManager env storage start n u) calls) q data)
           = metadata (cacheRun env (newCacheManager env storage start n u) calls)
       \<and> cache_get env now' (cache_set env now (cacheRun env (newCacheManager env storage start n u) calls) q data) q
           = (cache_set env now (cacheRun env (newCacheManager env storage start n u) calls) q data, Some data)"
proof -
  let ?s = "cacheRun env (newCacheManager env storage start n u) calls"
  let ?k = "generateKey q"
  let ?s1 = "enforceSizeLimit (?s\<lparr>memoryCache := mapSet ?k data (memoryCache ?s)\<rparr>)"
  have ok: "memoryOk ?s" by (rule reachable_ok)
  have mx: "maxMemoryItems ?s = n" by simp
  have set_eq: "cache_set env now ?s q data = ?s1"
    using assms(2,3) by (simp add: cache_set_def Let_def)
  have "map_of (memoryCache ?s1) ?k = Some data"
  proof (cases "?k \<notin> fst ` set (memoryCache ?s) \<and> length (memoryCache ?s) = maxMemoryItems ?s")
    case True
    with assms(1) mx obtain e m where m: "memoryCache ?s = e # m"
      by (cases "memoryCache ?s") auto
    with True have "?k \<notin> fst ` set m" by auto
    then have "map_of (m @ [(?k, data)]) ?k = Some data"
      by (simp add: map_add_Some_iff map_of_eq_None_iff)
    with True m show ?thesis
      using insert_then_enforce(2) [OF ok, of ?k data] by simp
  next
    case False
    then show ?thesis
      using insert_then_enforce(2) [OF ok, of ?k data] by (auto simp: map_of_mapSet)
  qed
  then have "cache_get env now' ?s1 q = (?s1, Some data)"
    by (rule cache_get_hit)
  then show ?thesis unfolding set_eq by simp
qed

theorem oversize_entry_memory_only_witness:
  "(1::nat) \<le> 1
   \<and> stringify demoBrowser 4194305 = Some (replicate 4194305 CHR ''1'')
   \<and> length (replicate 4194305 CHR ''1'') > 4 * 1024 * 1024
   \<and> localStorage (cache_set demoBrowser 1 demoCache demoParams2 4194305) = localStorage demoCache
   \<and> metadata (cache_set demoBrowser 1 demoCache demoParams2 4194305) = metadata demoCache
   \<and> cache_get demoBrowser 2 (cache_set demoBrowser 1 demoCache demoParams2 4194305) demoParams2
       = (cache_set demoBrowser 1 demoCache demoParams2 4194305, Some 4194305)"
proof -
  have h: "(1::nat) \<le> 1" "stringify demoBrowser 4194305 = Some (replicate 4194305 CHR ''1'')"
      "length (replicate 4194305 CHR ''1'') > 4 * 1024 * 1024"
    by (simp_all add: demoBrowser_def)
  from h oversize_entry_memory_only [where storage = Map.empty and start = 0 and u = True
      and calls = "[Set demoParams 7 0]" and now = 1 and q = demoParams2 and now' = 2, OF h]
  show ?thesis unfolding demoCache_def by blast
qed

section \<open>Boundary deduplication is idempotent\<close>

lemma dotMapAdd_ok: "dotMapOk m \<Longrightarrow> dotMapOk (dotMapAdd d m)"
  by (auto simp: dotMapOk_def dotMapAdd_def)

lemma fold_dotMapAdd_ok: "dotMapOk m \<Longrightarrow> dotMapOk (fold dotMapAdd ds m)"
  by (induction ds arbitrary: m) (simp_all add: dotMapAdd_ok)

text \<open>Dots with pairwise different keys, none of them in the map yet, are all appended.\<close>

lemma fold_dotMapAdd_fresh:
  "distinct (map dotKey ds) \<Longrightarrow> set (map dotKey ds) \<inter> fst ` set m = {}
   \<Longrightarrow> fold dotMapAdd ds m = m @ map (\<lambda>d. (dotKey d, d)) ds"
proof (induction ds arbitrary: m)
  case Nil
  then show ?case by simp
next
  case (Cons d ds)
  from Cons.prems have fresh: "dotKey d \<notin> fst ` set m" by auto
  then have step: "dotMapAdd d m = m @ [(dotKey d, d)]" by (simp add: dotMapAdd_def)
  from Cons.prems have "distinct (map dotKey ds)"
    and "set (map dotKey ds) \<inter> fst ` set (m @ [(dotKey d, d)]) = {}" by auto
  from Cons.IH [OF this] step show ?case by simp
qed

lemma finalPass_keys_distinct: "distinct (map dotKey (finalPass ds))"
proof -
  have "dotMapOk (fold dotMapAdd ds [])"
    by (rule fold_dotMapAdd_ok) (simp add: dotMapOk_def)
  then have "distinct (map fst (fold dotMapAdd ds []))"
    and "map fst (fold dotMapAdd ds []) = map (\<lambda>e. dotKey (snd e)) (fold dotMapAdd ds [])"
    unfolding dotMapOk_def by blast+
  then have "distinct (map (\<lambda>e. dotKey (snd e)) (fold dotMapAdd ds []))" by simp
  then show ?thesis by (simp add: finalPass_def comp_def)
qed

lemma finalPass_distinct_id:
  assumes "distinct (map dotKey ds)"
  shows "finalPass ds = ds"
proof -
  from assms have "fold dotMapAdd ds [] = [] @ map (\<lambda>d. (dotKey d, d)) ds"
    by (intro fold_dotMapAdd_fresh) simp_all
  then show ?thesis by (simp add: finalPass_def comp_def)
qed

lemma finalPass_idem: "finalPass (finalPass ds) = finalPass ds"
  by (rule finalPass_distinct_id [OF finalPass_keys_distinct])

text \<open>
  C9. Feeding the deduplicated result set back through both passes returns it
  unchanged, in the same order, and the count of removed dots is zero.
\<close>

theorem reconcile_idempotent:
  "reconcile spc [fst (reconcile spc results)] = (fst (reconcile spc results), 0)"
  by (simp add: reconcile_def Let_def finalPass_idem)

text \<open>
  The first pass on its own, applied again to the chunk arrays it has written back,
  changes nothing when all dots lie on the spacing grid: columns of different chunks
  are then equal or at least one spacing apart.
\<close>

lemma js_round_nat: "js_round (real n) = int n"
proof -
  have "\<lfloor>real n + 1 / 2\<rfloor> = int n" by (simp add: floor_eq_iff)
  then show ?thesis by (simp add: js_round_def)
qed

lemma grid_step: "j < i \<Longrightarrow> real (j * s) + real s \<le> real (i * s)"
proof -
  assume "j < i"
  then have "Suc j * s \<le> i * s" by (intro mult_le_mono1) simp
  then have "j * s + s \<le> i * s" by (simp add: add.commute)
  then show ?thesis by (metis of_nat_add of_nat_le_iff)
qed

lemma grid_close_equal:
  assumes "\<bar>real (k * s) - real (j * s)\<bar> < real s"
  shows "k = j"
proof (rule ccontr)
  assume "k \<noteq> j"
  then consider "k < j" | "j < k" by linarith
  then show False
  proof cases
    case 1
    from grid_step [OF this, of s] assms show False by linarith
  next
    case 2
    from grid_step [OF this, of s] assms show False by linarith
  qed
qed

lemma onGrid_dropBoundary: "onGrid s nxt \<Longrightarrow> onGrid s (dropBoundary spc cur nxt)"
  by (auto simp: onGrid_def dropBoundary_def Let_def list_all_iff)

lemma dropBoundary_stable:
  assumes s: "0 < s" and cur: "onGrid s cur" and nxt: "onGrid s nxt"
  shows "dropBoundary (real s) cur (dropBoundary (real s) cur nxt) = dropBoundary (real s) cur nxt"
proof (cases "cur = [] \<or> nxt = []")
  case True
  then show ?thesis by (auto simp: dropBoundary_def)
next
  case False
  define mx where "mx = Max (set (map dot_x cur))"
  define mn where "mn = Min (set (map dot_x nxt))"
  show ?thesis
  proof (cases "\<bar>mx - mn\<bar> < real s")
    case far: False
    with False show ?thesis by (simp add: dropBoundary_def Let_def mx_def mn_def)
  next
    case near: True
    define nxt' where "nxt' = filter (\<lambda>d. js_round (dot_x d) \<noteq> js_round mn) nxt"
    from False near have d: "dropBoundary (real s) cur nxt = nxt'"
      by (simp add: dropBoundary_def Let_def mx_def mn_def nxt'_def)
    show ?thesis
    proof (cases "nxt' = []")
      case True
      with d show ?thesis by (simp add: dropBoundary_def)
    next
      case ne: False
      define mn' where "mn' = Min (set (map dot_x nxt'))"
      from False have "mx \<in> set (map dot_x cur)" "mn \<in> set (map dot_x nxt)"
        unfolding mx_def mn_def by (simp_all del: set_map)
      then obtain a b where a: "a \<in> set cur" "mx = dot_x a" and b: "b \<in> set nxt" "mn = dot_x b"
        by auto
      from a cur obtain k where k: "mx = real (k * s)" by (auto simp: onGrid_def list_all_iff)
      from b nxt obtain j where j: "mn = real (j * s)" by (auto simp: onGrid_def list_all_iff)
      from near have "\<bar>real (k * s) - real (j * s)\<bar> < real s" unfolding k j .
      then have "k = j" by (rule grid_close_equal)
      with k j have eq: "mx = mn" by simp
      from ne have "mn' \<in> set (map dot_x nxt')" unfolding mn'_def by (simp del: set_map)
      then obtain c where c: "c \<in> set nxt'" "mn' = dot_x c" by auto
      then have cn: "c \<in> set nxt" "js_round (dot_x c) \<noteq> js_round mn" by (simp_all add: nxt'_def)
      from cn(1) nxt obtain i where i: "dot_x c = real (i * s)"
        by (auto simp: onGrid_def list_all_iff)
      from cn(1) have "mn \<le> dot_x c" unfolding mn_def by simp
      then have "real (j * s) \<le> real (i * s)" unfolding i j .
      then have le: "j * s \<le> i * s" by (simp only: of_nat_le_iff)
      from cn(2) have "js_round (real (i * s)) \<noteq> js_round (real (j * s))" unfolding i j .
      then have "i * s \<noteq> j * s" unfolding js_round_nat by simp
      with le have "j * s < i * s" by simp
      then have "j < i" using s by simp
      from grid_step [OF this, of s] c i j eq have "\<not> \<bar>mx - mn'\<bar> < real s" by simp
      with ne False d show ?thesis
        by (simp add: dropBoundary_def Let_def mx_def mn'_def)
    qed
  qed
qed

lemma boundaryPass_head: "\<exists>t. fst (boundaryPass spc (c # rs)) = c # t"
  by (cases rs) (simp_all add: Let_def)

lemma boundaryPass_idem_on_grid:
  "0 < s \<Longrightarrow> list_all (onGrid s) rs
   \<Longrightarrow> fst (boundaryPass (real s) (fst (boundaryPass (real s) rs))) = fst (boundaryPass (real s) rs)"
proof (induction "real s" rs rule: boundaryPass.induct)
  case (1 cur nxt rest)
  define nxt' where "nxt' = dropBoundary (real s) cur nxt"
  from 1(3) have g: "onGrid s cur" "onGrid s nxt" "list_all (onGrid s) rest" by simp_all
  then have g': "list_all (onGrid s) (nxt' # rest)"
    by (simp add: nxt'_def onGrid_dropBoundary)
  obtain t where t: "fst (boundaryPass (real s) (nxt' # rest)) = nxt' # t"
    using boundaryPass_head by blast
  have IH: "fst (boundaryPass (real s) (nxt' # t)) = nxt' # t"
    using 1(1) [OF nxt'_def 1(2) g'] t by simp
  have st: "dropBoundary (real s) cur nxt' = nxt'"
    unfolding nxt'_def by (rule dropBoundary_stable [OF 1(2) g(1,2)])
  have first: "fst (boundaryPass (real s) (cur # nxt # rest)) = cur # nxt' # t"
    using t by (simp add: Let_def nxt'_def)
  have "fst (boundaryPass (real s) (cur # nxt' # t)) = cur # nxt' # t"
    using st IH by (simp add: Let_def)
  with first show ?case by simp
qed simp_all

text \<open>
  Off the grid the first pass can remove again: with spacing 10, a chunk holding
  \<open>x = 0\<close> and a next chunk holding \<open>x = 1\<close> and \<open>x = 2\<close>, the first run drops the
  dot at 1 and a second run over the written-back chunks drops the dot at 2.
\<close>

lemma boundaryPass_off_grid:
  "fst (boundaryPass 10
         [[\<lparr>dot_x = 0, dot_y = 0, countryName = None, coords = None\<rparr>],
          [\<lparr>dot_x = 1, dot_y = 0, countryName = None, coords = None\<rparr>,
           \<lparr>dot_x = 2, dot_y = 0, countryName = None, coords = None\<rparr>]])
     = [[\<lparr>dot_x = 0, dot_y = 0, countryName = None, coords = None\<rparr>],
        [\<lparr>dot_x = 2, dot_y = 0, countryName = None, coords = None\<rparr>]]"
  "fst (boundaryPass 10
         [[\<lparr>dot_x = 0, dot_y = 0, countryName = None, coords = None\<rparr>],
          [\<lparr>dot_x = 2, dot_y = 0, countryName = None, coords = None\<rparr>]])
     = [[\<lparr>dot_x = 0, dot_y = 0, countryName = None, coords = None\<rparr>], []]"
proof -
  have r: "js_round 1 = 1" "js_round 2 = 2"
    by (simp_all add: js_round_def floor_eq_iff)
  show "fst (boundaryPass 10
         [[\<lparr>dot_x = 0, dot_y = 0, countryName = None, coords = None\<rparr>],
          [\<lparr>dot_x = 1, dot_y = 0, countryName = None, coords = None\<rparr>,
           \<lparr>dot_x = 2, dot_y = 0, countryName = None, coords = None\<rparr>]])
     = [[\<lparr>dot_x = 0, dot_y = 0, countryName = None, coords = None\<rparr>],
        [\<lparr>dot_x = 2, dot_y = 0, countryName = None, coords = None\<rparr>]]"
    by (simp add: Let_def dropBoundary_def r)
  show "fst (boundaryPass 10
         [[\<lparr>dot_x = 0, dot_y = 0, countryName = None, coords = None\<rparr>],
          [\<lparr>dot_x = 2, dot_y = 0, countryName = None, coords = None\<rparr>]])
     = [[\<lparr>dot_x = 0, dot_y = 0, countryName = None, coords = None\<rparr>], []]"
    by (simp add: Let_def dropBoundary_def r)
qed

section \<open>Bounding circles of the special regions\<close>

lemma radiusDegrees_special:
  "radiusDegrees antarcticaBounds = 72" "radiusDegrees russiaBounds = 72"
  "radiusDegrees (mainBounds c) = 45" "radiusDegrees alaskaBounds = 360 / 7"
  by (simp_all add: radiusDegrees_def antarcticaBounds_def russiaBounds_def mainBounds_def
      alaskaBounds_def)

text \<open>
  C7 (as stated). With the longitude intervals closed, a centroid at latitude 65 and
  longitude exactly 180 would yield the Russia circle, and a centroid at latitude 65
  and longitude exactly -180 the two USA circles. The code compares strictly
  (\<open>centroid[0] < 180\<close>, \<open>centroid[0] > -180\<close>), and a feature that straddles the
  antimeridian with such a centroid gets the generic polar circle at its own
  centroid.
\<close>

theorem special_region_closed_interval_counterexample:
  "snd (geoCentroid (plateEnv (180, 65) ((170, 55), (-170, 85)) [((170, 55), (180, 85)), ((-180, 55), (-170, 85))]) (boxFeature ''A'' [((170, 55), (180, 85)), ((-180, 55), (-170, 85))])) > 50
   \<and> fst (geoCentroid (plateEnv (180, 65) ((170, 55), (-170, 85)) [((170, 55), (180, 85)), ((-180, 55), (-170, 85))]) (boxFeature ''A'' [((170, 55), (180, 85)), ((-180, 55), (-170, 85))])) \<in> {60 .. 180}
   \<and> calculateCircularBounds (plateEnv (180, 65) ((170, 55), (-170, 85)) [((170, 55), (180, 85)), ((-180, 55), (-170, 85))]) (boxFeature ''A'' [((170, 55), (180, 85)), ((-180, 55), (-170, 85))])
       = Returns [\<lparr>center = (180, 65), radius = pi / 3, isPolar = True, crossesAntimeridian = True,
                    isSpecialRegion = False, regionType = ''polar''\<rparr>]
   \<and> calculateCircularBounds (plateEnv (180, 65) ((170, 55), (-170, 85)) [((170, 55), (180, 85)), ((-180, 55), (-170, 85))]) (boxFeature ''A'' [((170, 55), (180, 85)), ((-180, 55), (-170, 85))]) \<noteq> Returns [russiaBounds]
   \<and> snd (geoCentroid (plateEnv (-180, 65) ((170, 55), (-170, 85)) [((170, 55), (180, 85)), ((-180, 55), (-170, 85))]) (boxFeature ''A'' [((170, 55), (180, 85)), ((-180, 55), (-170, 85))])) > 30
   \<and> fst (geoCentroid (plateEnv (-180, 65) ((170, 55), (-170, 85)) [((170, 55), (180, 85)), ((-180, 55), (-170, 85))]) (boxFeature ''A'' [((170, 55), (180, 85)), ((-180, 55), (-170, 85))])) \<in> {-180 .. -30}
   \<and> calculateCircularBounds (plateEnv (-180, 65) ((170, 55), (-170, 85)) [((170, 55), (180, 85)), ((-180, 55), (-170, 85))]) (boxFeature ''A'' [((170, 55), (180, 85)), ((-180, 55), (-170, 85))])
       = Returns [\<lparr>center = (-180, 65), radius = pi / 3, isPolar = True, crossesAntimeridian = True,
                    isSpecialRegion = False, regionType = ''polar''\<rparr>]
   \<and> calculateCircularBounds (plateEnv (-180, 65) ((170, 55), (-170, 85)) [((170, 55), (180, 85)), ((-180, 55), (-170, 85))]) (boxFeature ''A'' [((170, 55), (180, 85)), ((-180, 55), (-170, 85))]) \<noteq> Returns [mainBounds (-180, 65), alaskaBounds]"
  by (simp add: calculateCircularBounds_def plateEnv_def Let_def russiaBounds_def
      mainBounds_def alaskaBounds_def)

text \<open>
  C7 (amended). A centroid with \<open>lat < -60\<close> yields the one Antarctica circle (south
  pole, 72 degrees, polar, antimeridian-crossing); a centroid with \<open>lat > 50\<close> and
  \<open>60 < lon < 180\<close> the one Russia circle (centre (100, 65), 72 degrees, polar,
  antimeridian-crossing); a centroid with \<open>lat > 30\<close> and \<open>-180 < lon < -30\<close> two
  circles: \<open>usa-main\<close> at the centroid (45 degrees, not polar) and \<open>usa-alaska\<close> at
  (-170, 65) (360/7, about 51.4 degrees, polar, antimeridian-crossing).
\<close>

theorem special_region_circles:
  "(snd (geoCentroid env g) < -60
      \<longrightarrow> calculateCircularBounds env g = Returns [antarcticaBounds])
   \<and> (snd (geoCentroid env g) > 50 \<and> 60 < fst (geoCentroid env g) \<and> fst (geoCentroid env g) < 180
      \<longrightarrow> calculateCircularBounds env g = Returns [russiaBounds])
   \<and> (snd (geoCentroid env g) > 30 \<and> -180 < fst (geoCentroid env g) \<and> fst (geoCentroid env g) < -30
      \<longrightarrow> calculateCircularBounds env g = Returns [mainBounds (geoCentroid env g), alaskaBounds])
   \<and> center antarcticaBounds = (0, -90) \<and> radiusDegrees antarcticaBounds = 72
   \<and> isPolar antarcticaBounds \<and> crossesAntimeridian antarcticaBounds
   \<and> center russiaBounds = (100, 65) \<and> radiusDegrees russiaBounds = 72
   \<and> isPolar russiaBounds \<and> crossesAntimeridian russiaBounds
   \<and> center (mainBounds c) = c \<and> radiusDegrees (mainBounds c) = 45
   \<and> \<not> isPolar (mainBounds c) \<and> regionType (mainBounds c) = ''usa-main''
   \<and> center alaskaBounds = (-170, 65)
   \<and> 51.4 < radiusDegrees alaskaBounds \<and> radiusDegrees alaskaBounds < 51.5
   \<and> isPolar alaskaBounds \<and> crossesAntimeridian alaskaBounds
   \<and> regionType alaskaBounds = ''usa-alaska''"
proof -
  have 1: "calculateCircularBounds env g = Returns [antarcticaBounds]"
    if "snd (geoCentroid env g) < -60"
    using that by (simp add: calculateCircularBounds_def Let_def)
  have 2: "calculateCircularBounds env g = Returns [russiaBounds]"
    if "snd (geoCentroid env g) > 50 \<and> 60 < fst (geoCentroid env g) \<and> fst (geoCentroid env g) < 180"
    using that by (simp add: calculateCircularBounds_def Let_def)
  have 3: "calculateCircularBounds env g = Returns [mainBounds (geoCentroid env g), alaskaBounds]"
    if "snd (geoCentroid env g) > 30 \<and> -180 < fst (geoCentroid env g) \<and> fst (geoCentroid env g) < -30"
    using that by (simp add: calculateCircularBounds_def Let_def)
  have 4: "center antarcticaBounds = (0, -90)" "isPolar antarcticaBounds"
    "crossesAntimeridian antarcticaBounds" "center russiaBounds = (100, 65)"
    "isPolar russiaBounds" "crossesAntimeridian russiaBounds"
    "center (mainBounds c) = c" "\<not> isPolar (mainBounds c)"
    "regionType (mainBounds c) = ''usa-main''" "center alaskaBounds = (-170, 65)"
    "isPolar alaskaBounds" "crossesAntimeridian alaskaBounds"
    "regionType alaskaBounds = ''usa-alaska''"
    by (simp_all add: antarcticaBounds_def russiaBounds_def mainBounds_def alaskaBounds_def)
  have 5: "51.4 < radiusDegrees alaskaBounds" "radiusDegrees alaskaBounds < 51.5"
    by (simp_all add: radiusDegrees_special)
  from 1 2 3 4 5 radiusDegrees_special(1,2) radiusDegrees_special(3) [of c] show ?thesis by blast
qed

theorem special_region_circles_witness:
  "snd (geoCentroid (plateEnv (0, -80) ((-180, -90), (180, -65)) [((-180, -90), (180, -65))]) (boxFeature ''A'' [((-180, -90), (180, -65))])) < -60
   \<and> calculateCircularBounds (plateEnv (0, -80) ((-180, -90), (180, -65)) [((-180, -90), (180, -65))]) (boxFeature ''A'' [((-180, -90), (180, -65))]) = Returns [antarcticaBounds]
   \<and> snd (geoCentroid (plateEnv (120, 65) ((61, 51), (179, 82)) [((61, 51), (179, 82))]) (boxFeature ''A'' [((61, 51), (179, 82))])) > 50
   \<and> 60 < fst (geoCentroid (plateEnv (120, 65) ((61, 51), (179, 82)) [((61, 51), (179, 82))]) (boxFeature ''A'' [((61, 51), (179, 82))]))
   \<and> fst (geoCentroid (plateEnv (120, 65) ((61, 51), (179, 82)) [((61, 51), (179, 82))]) (boxFeature ''A'' [((61, 51), (179, 82))])) < 180
   \<and> calculateCircularBounds (plateEnv (120, 65) ((61, 51), (179, 82)) [((61, 51), (179, 82))]) (boxFeature ''A'' [((61, 51), (179, 82))]) = Returns [russiaBounds]
   \<and> snd (geoCentroid (plateEnv (-96, 38) ((-125, 25), (-67, 49)) [((-125, 25), (-67, 49))]) (boxFeature ''A'' [((-125, 25), (-67, 49))])) > 30
   \<and> -180 < fst (geoCentroid (plateEnv (-96, 38) ((-125, 25), (-67, 49)) [((-125, 25), (-67, 49))]) (boxFeature ''A'' [((-125, 25), (-67, 49))]))
   \<and> fst (geoCentroid (plateEnv (-96, 38) ((-125, 25), (-67, 49)) [((-125, 25), (-67, 49))]) (boxFeature ''A'' [((-125, 25), (-67, 49))])) < -30
   \<and> calculateCircularBounds (plateEnv (-96, 38) ((-125, 25), (-67, 49)) [((-125, 25), (-67, 49))]) (boxFeature ''A'' [((-125, 25), (-67, 49))])
       = Returns [mainBounds (geoCentroid (plateEnv (-96, 38) ((-125, 25), (-67, 49)) [((-125, 25), (-67, 49))]) (boxFeature ''A'' [((-125, 25), (-67, 49))])), alaskaBounds]"
proof -
  have a: "snd (geoCentroid (plateEnv (0, -80) ((-180, -90), (180, -65)) [((-180, -90), (180, -65))]) (boxFeature ''A'' [((-180, -90), (180, -65))])) < -60"
    by (simp add: plateEnv_def)
  have r: "snd (geoCentroid (plateEnv (120, 65) ((61, 51), (179, 82)) [((61, 51), (179, 82))]) (boxFeature ''A'' [((61, 51), (179, 82))])) > 50
      \<and> 60 < fst (geoCentroid (plateEnv (120, 65) ((61, 51), (179, 82)) [((61, 51), (179, 82))]) (boxFeature ''A'' [((61, 51), (179, 82))]))
      \<and> fst (geoCentroid (plateEnv (120, 65) ((61, 51), (179, 82)) [((61, 51), (179, 82))]) (boxFeature ''A'' [((61, 51), (179, 82))])) < 180"
    by (simp add: plateEnv_def)
  have u: "snd (geoCentroid (plateEnv (-96, 38) ((-125, 25), (-67, 49)) [((-125, 25), (-67, 49))]) (boxFeature ''A'' [((-125, 25), (-67, 49))])) > 30
      \<and> -180 < fst (geoCentroid (plateEnv (-96, 38) ((-125, 25), (-67, 49)) [((-125, 25), (-67, 49))]) (boxFeature ''A'' [((-125, 25), (-67, 49))]))
      \<and> fst (geoCentroid (plateEnv (-96, 38) ((-125, 25), (-67, 49)) [((-125, 25), (-67, 49))]) (boxFeature ''A'' [((-125, 25), (-67, 49))])) < -30"
    by (simp add: plateEnv_def)
  from a r u
    special_region_circles [of "plateEnv (0, -80) ((-180, -90), (180, -65)) [((-180, -90), (180, -65))]" "boxFeature ''A'' [((-180, -90), (180, -65))]"]
    special_region_circles [of "plateEnv (120, 65) ((61, 51), (179, 82)) [((61, 51), (179, 82))]" "boxFeature ''A'' [((61, 51), (179, 82))]"]
    special_region_circles [of "plateEnv (-96, 38) ((-125, 25), (-67, 49)) [((-125, 25), (-67, 49))]" "boxFeature ''A'' [((-125, 25), (-67, 49))]"]
  show ?thesis by blast
qed

section \<open>The spatial grid\<close>

lemma gridGet_gridPush:
  "gridGet (gridPush e k g) k' = (if k' = k then gridGet g k @ [e] else gridGet g k')"
  by (simp add: gridGet_def gridPush_def Let_def split: option.splits)

lemma gridGet_fold_push:
  "gridGet (fold (\<lambda>latlon. gridPush e (wrappedCell latlon)) lls g) k
     = gridGet g k @ map (\<lambda>latlon. e) (filter (\<lambda>latlon. wrappedCell latlon = k) lls)"
  by (induction lls arbitrary: g) (simp_all add: gridGet_gridPush)

lemma gridGet_fold_circles:
  "gridGet (fold (\<lambda>entry grid. fold (\<lambda>latlon. gridPush entry (wrappedCell latlon))
                                   (cellLoop (snd entry)) grid) circles g) k
     = gridGet g k @ concat (map (cellEntries k) circles)"
  by (induction circles arbitrary: g) (simp_all add: gridGet_fold_push cellEntries_def)

lemma gridGet_initializeSpatialGrid:
  "gridGet (initializeSpatialGrid circles) k = concat (map (cellEntries k) circles)"
proof -
  have "gridGet Map.empty k = []" by (simp add: gridGet_def)
  then show ?thesis
    unfolding initializeSpatialGrid_def gridGet_fold_circles by simp
qed

lemma cellEntries_set:
  "set (cellEntries k e) = (if k \<in> wrappedCell ` set (cellLoop (snd e)) then {e} else {})"
  by (auto simp: cellEntries_def filter_empty_conv)

text \<open>
  Every circle is in the candidate list of the key computed for every step of the
  two loops over its box.
\<close>

lemma grid_holds_enumerated_cells:
  assumes "e \<in> set circles" "latlon \<in> set (cellLoop (snd e))"
  shows "e \<in> set (gridGet (initializeSpatialGrid circles) (wrappedCell latlon))"
  using assms by (auto simp: gridGet_initializeSpatialGrid cellEntries_set)

lemma degreesFrom_mem:
  "v \<in> set (degreesFrom lo hi) \<longleftrightarrow> (\<exists>k::nat. v = lo + GRID_SIZE * real k) \<and> v < hi"
proof (induction lo hi rule: degreesFrom.induct)
  case (1 lo hi)
  show ?case
  proof (cases "lo < hi")
    case False
    have "\<not> lo + GRID_SIZE * real k < hi" for k
    proof -
      have "0 \<le> GRID_SIZE * real k" by (simp add: GRID_SIZE_def)
      with False show ?thesis by linarith
    qed
    with False show ?thesis by (subst degreesFrom.simps) auto
  next
    case True
    have "(\<exists>k::nat. v = lo + GRID_SIZE * real k) \<longleftrightarrow>
            v = lo \<or> (\<exists>k::nat. v = lo + GRID_SIZE + GRID_SIZE * real k)" (is "?L \<longleftrightarrow> ?R")
    proof
      assume ?L
      then obtain k :: nat where k: "v = lo + GRID_SIZE * real k" by blast
      show ?R
      proof (cases k)
        case 0
        with k show ?thesis by simp
      next
        case (Suc j)
        with k have "v = lo + GRID_SIZE + GRID_SIZE * real j" by (simp add: algebra_simps)
        then show ?thesis by blast
      qed
    next
      assume ?R
      then show ?L
      proof
        assume "v = lo"
        then have "v = lo + GRID_SIZE * real (0::nat)" by simp
        then show ?L by blast
      next
        assume "\<exists>k::nat. v = lo + GRID_SIZE + GRID_SIZE * real k"
        then obtain k :: nat where "v = lo + GRID_SIZE + GRID_SIZE * real k" by blast
        then have "v = lo + GRID_SIZE * real (Suc k)" by (simp add: algebra_simps)
        then show ?L by blast
      qed
    qed
    with True "1.IH" [OF True] show ?thesis
      by (subst degreesFrom.simps) auto
  qed
qed

lemma cellLoop_mem:
  "(lat, lon) \<in> set (cellLoop b) \<longleftrightarrow>
     lat \<in> set (degreesFrom (max (-90) (js_floor ((snd (center b) - radiusDegrees b) / GRID_SIZE) * GRID_SIZE))
                             (min 90 (js_ceil ((snd (center b) + radiusDegrees b) / GRID_SIZE) * GRID_SIZE)))
     \<and> lon \<in> set (degreesFrom (js_floor ((fst (center b) - radiusDegrees b) / GRID_SIZE) * GRID_SIZE)
                               (js_ceil ((fst (center b) + radiusDegrees b) / GRID_SIZE) * GRID_SIZE))"
  by (auto simp: cellLoop_def Let_def)

lemma cellLoop_lat_below_90: "(lat, lon) \<in> set (cellLoop b) \<Longrightarrow> lat < 90"
  by (auto simp: cellLoop_mem degreesFrom_mem)

lemma gridGet_lat_90:
  assumes "90 \<le> fst k"
  shows "gridGet (initializeSpatialGrid circles) k = []"
proof -
  have "k \<notin> wrappedCell ` set (cellLoop b)" for b
  proof
    assume "k \<in> wrappedCell ` set (cellLoop b)"
    then obtain lat lon where "(lat, lon) \<in> set (cellLoop b)" "k = wrappedCell (lat, lon)"
      by auto
    with cellLoop_lat_below_90 [of lat lon b] assms show False
      by (simp add: wrappedCell_def)
  qed
  then have "cellEntries k e = []" for e
    using cellEntries_set [of k e] by simp
  then show ?thesis by (simp add: gridGet_initializeSpatialGrid)
qed

text \<open>The loop bounds of the Alaska circle.\<close>

lemma alaska_loop_bounds:
  "js_floor ((snd (center alaskaBounds) - radiusDegrees alaskaBounds) / GRID_SIZE) * GRID_SIZE = 10"
  "js_ceil ((snd (center alaskaBounds) + radiusDegrees alaskaBounds) / GRID_SIZE) * GRID_SIZE = 120"
  "js_floor ((fst (center alaskaBounds) - radiusDegrees alaskaBounds) / GRID_SIZE) * GRID_SIZE = -230"
  "js_ceil ((fst (center alaskaBounds) + radiusDegrees alaskaBounds) / GRID_SIZE) * GRID_SIZE = -110"
proof -
  have c: "center alaskaBounds = (-170, 65)" by (simp add: alaskaBounds_def)
  have r: "radiusDegrees alaskaBounds = 360 / 7"
    by (simp add: radiusDegrees_def alaskaBounds_def)
  have "\<lfloor>(65 - 360 / 7) / (10::real)\<rfloor> = 1" by (simp add: floor_eq_iff)
  then show "js_floor ((snd (center alaskaBounds) - radiusDegrees alaskaBounds) / GRID_SIZE) * GRID_SIZE = 10"
    by (simp add: c r js_floor_def GRID_SIZE_def)
  have "\<lceil>(65 + 360 / 7) / (10::real)\<rceil> = 12" by (simp add: ceiling_eq_iff)
  then show "js_ceil ((snd (center alaskaBounds) + radiusDegrees alaskaBounds) / GRID_SIZE) * GRID_SIZE = 120"
    by (simp add: c r js_ceil_def GRID_SIZE_def)
  have "\<lfloor>(- 170 - 360 / 7) / (10::real)\<rfloor> = - 23" by (simp add: floor_eq_iff)
  then show "js_floor ((fst (center alaskaBounds) - radiusDegrees alaskaBounds) / GRID_SIZE) * GRID_SIZE = -230"
    by (simp add: c r js_floor_def GRID_SIZE_def)
  have "\<lceil>(- 170 + 360 / 7) / (10::real)\<rceil> = - 11" by (simp add: ceiling_eq_iff)
  then show "js_ceil ((fst (center alaskaBounds) + radiusDegrees alaskaBounds) / GRID_SIZE) * GRID_SIZE = -110"
    by (simp add: c r js_ceil_def GRID_SIZE_def)
qed

lemma alaska_first_step: "(10, -230) \<in> set (cellLoop alaskaBounds)"
proof -
  have "(10::real) = 10 + GRID_SIZE * real (0::nat)" "(-230::real) = -230 + GRID_SIZE * real (0::nat)"
    by simp_all
  then have "(\<exists>k::nat. (10::real) = 10 + GRID_SIZE * real k)"
    "(\<exists>k::nat. (-230::real) = -230 + GRID_SIZE * real k)" by blast+
  then show ?thesis
    by (simp add: cellLoop_mem alaska_loop_bounds degreesFrom_mem)
qed

lemma wrappedCell_below: "wrappedCell (10, -230) = (10, -230)"
  by (simp add: wrappedCell_def js_rem_def js_trunc_def ceiling_eq_iff)

section \<open>The tiered pipeline against exhaustive containment\<close>

lemma bindO_Returns [simp]: "bindO (Returns a) f = f a"
  by (simp add: bindO_def)

lemma bindO_Throws [simp]: "bindO (Throws e) f = Throws e"
  by (simp add: bindO_def)

lemma bindO_Diverges [simp]: "bindO Diverges f = Diverges"
  by (simp add: bindO_def)

























section \<open>Evaluation on the demonstration worlds\<close>

lemma plate_invert_full:
  "invert (plateEnv c b boxes) (360, 180) (px, py)
     = Returns (Some (Fin (real px - 180), Fin (90 - real py)))"
  by (simp add: plateEnv_def plateInvert_def Let_def)

lemma js_rem_small: "0 \<le> a \<Longrightarrow> a < b \<Longrightarrow> js_rem a b = a"
proof -
  assume a: "0 \<le> a" "a < b"
  then have "0 \<le> a / b" by simp
  moreover from a have "\<lfloor>a / b\<rfloor> = 0" by (simp add: floor_eq_iff)
  ultimately show ?thesis by (simp add: js_rem_def js_trunc_def)
qed


lemma wrapLongitude_id: "-180 < lon \<Longrightarrow> lon < 180 \<Longrightarrow> wrapLongitude lon = lon"
  by (simp add: wrapLongitude_def js_rem_small)


lemma processFeature_box:
  assumes "\<forall>r \<in> set boxes. -180 < fst (fst r) \<and> fst (fst r) < 180 \<and> -180 < fst (snd r) \<and> fst (snd r) < 180"
  shows "processFeature (boxFeature name boxes) = boxFeature name boxes"
proof -
  have "map processCoordinates [boxRing r] = [boxRing r]" if "r \<in> set boxes" for r
    using assms that by (auto simp: processCoordinates_def boxRing_def Let_def wrapLongitude_id)
  then have "map (map processCoordinates) (map (\<lambda>r. [boxRing r]) boxes) = map (\<lambda>r. [boxRing r]) boxes"
    by (induction boxes) simp_all
  then show ?thesis by (simp add: processFeature_def boxFeature_def)
qed

lemma demo_circles:
  "calculateCircularBounds demoEnv demoFeature = Returns [mainBounds (-97, 62), alaskaBounds]"
  by (simp add: calculateCircularBounds_def demoEnv_def plateEnv_def Let_def)


lemma demoWorld_init: "initializeWorld demoEnv [demoFeature] blankWorker = Returns demoWorld"
proof -
  have "processFeature demoFeature = demoFeature"
    unfolding demoFeature_def by (rule processFeature_box) simp
  with demo_circles show ?thesis
    by (simp add: initializeWorld_def circlesOf_def demoWorld_def)
qed





lemma demo_contains: "geoContains demoEnv c p = Returns (inBox p ((-140, 42), (-53, 83)))"
  by (simp add: demoEnv_def plateEnv_def)













section \<open>Keys of the spatial grid\<close>

text \<open>
  C4 (the code at the failing input). The Alaska circle, which the code derives for
  every feature it classifies as USA, has a box that starts at longitude -230. Its
  first loop step is stored under the key \<open>(10, -230)\<close>: the remainder of a negative
  number is negative, so the longitude of the key is not wrapped into \<open>[-180, 180)\<close>.
\<close>

theorem spatialGrid_key_not_wrapped:
  "initializeWorld demoEnv [demoFeature] blankWorker = Returns demoWorld
   \<and> (10, -230) \<in> set (cellLoop alaskaBounds)
   \<and> wrappedCell (10, -230) = (10, -230)
   \<and> (demoFeature, alaskaBounds) \<in> set (gridGet (spatialGrid demoWorld) (10, -230))
   \<and> snd (wrappedCell (10, -230)) \<notin> {-180 ..< 180}"
proof -
  have "(demoFeature, alaskaBounds)
       \<in> set (gridGet (initializeSpatialGrid [(demoFeature, mainBounds (-97, 62)),
                                                (demoFeature, alaskaBounds)]) (wrappedCell (10, -230)))"
    by (rule grid_holds_enumerated_cells) (simp_all add: alaska_first_step)
  then have "(demoFeature, alaskaBounds) \<in> set (gridGet (spatialGrid demoWorld) (10, -230))"
    by (simp add: wrappedCell_below demoWorld_def blankWorker_def)
  with demoWorld_init show ?thesis
    by (simp add: alaska_first_step wrappedCell_below)
qed

section \<open>The classifier catches every exception\<close>

lemma tryCatch_never_throws: "tryCatch body h \<noteq> Throws e"
  by (cases body) (simp_all add: tryCatch_def)

lemma isValidCoordinate_iff:
  "isValidCoordinate (lon, lat) \<longleftrightarrow> (\<exists>u v. lon = Fin u \<and> lat = Fin v \<and> \<bar>v\<bar> \<le> 90)"
  by (cases lon; cases lat) simp_all

text \<open>
  C6. The classifier never throws. When the inverted coordinate is not valid (a
  component is not finite, or \<open>|lat| > 90\<close>) it returns null; when the inversion
  throws, or anything inside the \<open>try\<close> block throws (the containment and distance
  tests are there), it returns null.
\<close>

theorem classifier_catches:
  "(\<forall>e. getCountryAtPointSlow env st point \<noteq> Throws e)
   \<and> (currentProjection st = Some proj \<and> invert env proj point = Returns (Some c)
        \<and> \<not> isValidCoordinate c
      \<longrightarrow> getCountryAtPointSlow env st point = Returns None)
   \<and> (currentProjection st = Some proj \<and> invert env proj point = Throws e1
      \<longrightarrow> getCountryAtPointSlow env st point = Returns None)
   \<and> (classifyBody env st point = Throws e2
      \<longrightarrow> getCountryAtPointSlow env st point = Returns None)
   \<and> (isValidCoordinate (lon, lat) \<longleftrightarrow> (\<exists>u v. lon = Fin u \<and> lat = Fin v \<and> \<bar>v\<bar> \<le> 90))"
proof -
  have 1: "\<forall>e. getCountryAtPointSlow env st point \<noteq> Throws e"
    by (simp add: getCountryAtPointSlow_def tryCatch_never_throws)
  have 2: "getCountryAtPointSlow env st point = Returns None"
    if "currentProjection st = Some proj \<and> invert env proj point = Returns (Some c)
        \<and> \<not> isValidCoordinate c"
    using that by (simp add: getCountryAtPointSlow_def classifyBody_def tryCatch_def)
  have 3: "getCountryAtPointSlow env st point = Returns None"
    if "currentProjection st = Some proj \<and> invert env proj point = Throws e1"
    using that by (simp add: getCountryAtPointSlow_def classifyBody_def tryCatch_def)
  have 4: "getCountryAtPointSlow env st point = Returns None"
    if "classifyBody env st point = Throws e2"
    using that by (simp add: getCountryAtPointSlow_def tryCatch_def)
  from 1 2 3 4 isValidCoordinate_iff [of lon lat] show ?thesis by blast
qed

lemma demoReady_fields:
  "currentProjection demoReady = Some (360, 180)"
  "countryCircles demoReady = [(demoFeature, mainBounds (-97, 62)), (demoFeature, alaskaBounds)]"
  "world demoReady = [demoFeature]"
  "countryLookupMap demoReady = None"
  by (simp_all add: demoReady_def demoWorld_def blankWorker_def)

lemma throwing_body:
  "classifyBody throwingEnv demoReady (80, 25) = Throws ''degenerate geometry''"
proof -
  have inv: "invert throwingEnv (360, 180) (80, 25) = Returns (Some (Fin (-100), Fin 65))"
    by (simp add: throwingEnv_def demoEnv_def plateEnv_def plateInvert_def Let_def)
  have w: "wrapLongitude (-100) = -100" by (simp add: wrapLongitude_id)
  have a: "alaskaPath throwingEnv demoReady (-100) 65 = Returns None"
    by (simp add: alaskaPath_def)
  have s: "specialPath throwingEnv demoReady (-100) 65 = Throws ''degenerate geometry''"
    by (simp add: specialPath_def Let_def demoReady_fields testLons_def mainBounds_def
        throwingEnv_def)
  from inv w a s show ?thesis
    by (simp add: classifyBody_def demoReady_fields)
qed

theorem classifier_catches_witness:
  "currentProjection demoReady = Some (360, 180)
   \<and> invert nanEnv (360, 180) (0, 0) = Returns (Some (NaN, Fin 0))
   \<and> \<not> isValidCoordinate (NaN, Fin 0)
   \<and> getCountryAtPointSlow nanEnv demoReady (0, 0) = Returns None
   \<and> classifyBody throwingEnv demoReady (80, 25) = Throws ''degenerate geometry''
   \<and> getCountryAtPointSlow throwingEnv demoReady (80, 25) = Returns None"
proof -
  have h: "currentProjection demoReady = Some (360, 180) \<and> invert nanEnv (360, 180) (0, 0) = Returns (Some (NaN, Fin 0))
        \<and> \<not> isValidCoordinate (NaN, Fin 0)"
    by (simp add: demoReady_fields nanEnv_def)
  have a: "getCountryAtPointSlow nanEnv demoReady (0, 0) = Returns None"
    by (rule classifier_catches [where proj = "(360, 180)" and c = "(NaN, Fin 0)",
          THEN conjunct2, THEN conjunct1, THEN mp]) (rule h)
  have b: "getCountryAtPointSlow throwingEnv demoReady (80, 25) = Returns None"
    by (rule classifier_catches [where ?e2.0 = "''degenerate geometry''",
          THEN conjunct2, THEN conjunct2, THEN conjunct2, THEN conjunct1, THEN mp])
       (rule throwing_body)
  from h a b throwing_body show ?thesis by simp
qed

section \<open>The lookup map and the two samplers\<close>

lemma demo_states:
  "currentProjection staleWorld = Some (360, 180)"
  "countryCircles staleWorld = [(demoFeature, mainBounds (-97, 62)), (demoFeature, alaskaBounds)]"
  "spatialGrid staleWorld
     = initializeSpatialGrid [(demoFeature, mainBounds (-97, 62)), (demoFeature, alaskaBounds)]"
  "countryLookupMap staleWorld
     = Some \<lparr>map_data = [0], map_width = 1, map_height = 1, map_resolution = 2\<rparr>"
  "mapWorld\<lparr>currentProjection := Some (360, 180)\<rparr> = staleWorld"
  "staleWorld\<lparr>currentProjection := Some (360, 180)\<rparr> = staleWorld"
  by (simp_all add: staleWorld_def mapWorld_def demoReady_def demoWorld_def blankWorker_def)

lemma slow_off_canvas:
  "getCountryAtPointSlow demoEnv (demoWorld\<lparr>currentProjection := Some (2, 2)\<rparr>) (0, 0)
     = Returns None"
proof -
  have inv: "invert demoEnv (2, 2) (0, 0) = Returns (Some (Fin (-180), Fin 180))"
    by (simp add: demoEnv_def plateEnv_def plateInvert_def Let_def)
  have "\<not> isValidCoordinate (Fin (-180), Fin 180)"
    by (simp add: isValidCoordinate_iff)
  with inv have "classifyBody demoEnv (demoWorld\<lparr>currentProjection := Some (2, 2)\<rparr>) (0, 0)
                   = Returns None"
    by (simp add: classifyBody_def)
  then show ?thesis by (simp add: getCountryAtPointSlow_def tryCatch_def)
qed

lemma slow_at_corner: "getCountryAtPointSlow demoEnv staleWorld (0, 0) = Returns None"
proof -
  have inv: "invert demoEnv (360, 180) (0, 0) = Returns (Some (Fin (-180), Fin 90))"
    by (simp add: demoEnv_def plate_invert_full)
  have w: "wrapLongitude (-180) = 180"
    by (simp add: wrapLongitude_def js_rem_small)
  have a: "alaskaPath demoEnv staleWorld 180 90 = Returns None"
    by (simp add: alaskaPath_def)
  have s: "specialPath demoEnv staleWorld 180 90 = Returns None"
    by (simp add: specialPath_def Let_def demo_states testLons_def mainBounds_def
        alaskaBounds_def demo_contains inBox_def)
  have "\<lfloor>90 / (10::real)\<rfloor> = 9" "\<lfloor>180 / (10::real)\<rfloor> = 18" "\<lfloor>- 180 / (10::real)\<rfloor> = - 18"
    by (simp_all add: floor_eq_iff)
  then have c: "getGridCell (180, 90) = (90, -180)" "getGridCell (-180, 90) = (90, -180)"
    by (simp_all add: getGridCell_def Let_def js_floor_def GRID_SIZE_def js_rem_simps js_rem_small)
  have "gridGet (spatialGrid staleWorld) (90, -180) = []"
    by (simp add: demo_states gridGet_lat_90)
  then have g: "generalPath demoEnv staleWorld 180 90 = Returns None"
    by (simp add: generalPath_def Let_def testLons_def c)
  from inv w a s g have "classifyBody demoEnv staleWorld (0, 0) = Returns None"
    by (simp add: classifyBody_def demo_states)
  then show ?thesis by (simp add: getCountryAtPointSlow_def tryCatch_def)
qed

lemma build_small_map: "buildCountryLookupMap demoEnv demoWorld smallMapRequest = Returns mapWorld"
proof -
  have p: "setupProjection demoEnv ''geoEquirectangular'' 2 2 = Returns (2, 2)"
    by (simp add: demoEnv_def plateEnv_def)
  have d: "js_ceil_div 2 2 = 1" by (simp add: js_ceil_div_eq)
  show ?thesis
    by (simp add: buildCountryLookupMap_def smallMapRequest_def p d Let_def slow_off_canvas
        mapWorld_def)
qed

lemma stale_not_fast: "\<not> useFast staleWorld updateQuery" "\<not> useFast staleWorld bigQuery"
proof -
  have "js_ceil_div 360 2 = 180" by (simp add: js_ceil_div_eq)
  then show "\<not> useFast staleWorld updateQuery" "\<not> useFast staleWorld bigQuery"
    by (simp_all add: useFast_def demo_states updateQuery_def bigQuery_def)
qed

lemma whole_canvas_points: "gridPoints 0 360 0 180 360 = Returns [(0, 0)]"
  by (simp add: gridPoints_def forRange_def stepsFrom.simps)

lemma update_keeps_map: "calculateDots demoEnv mapWorld updateQuery = Returns (staleWorld, [])"
proof -
  have p: "setupProjection demoEnv ''geoEquirectangular'' 360 180 = Returns (360, 180)"
    by (simp add: demoEnv_def plateEnv_def)
  have inv: "invert demoEnv (360, 180) (0, 0) = Returns (Some (Fin (-180), Fin 90))"
    by (simp add: demoEnv_def plate_invert_full)
  have i: "isPointInProjection demoEnv staleWorld (0, 0) = Returns True"
    by (simp add: isPointInProjection_def demo_states inv tryCatch_def)
  show ?thesis
    by (simp add: calculateDots_def updateQuery_def p Let_def demo_states createDotsGrid_def
        whole_canvas_points i slow_at_corner
        stale_not_fast(1) [unfolded updateQuery_def])
qed

lemma slow_inside: "getCountryAtPointSlow demoEnv staleWorld (80, 25) = Returns (Some demoFeature)"
proof -
  have inv: "invert demoEnv (360, 180) (80, 25) = Returns (Some (Fin (-100), Fin 65))"
    by (simp add: demoEnv_def plate_invert_full)
  have w: "wrapLongitude (-100) = -100" by (simp add: wrapLongitude_id)
  have a: "alaskaPath demoEnv staleWorld (-100) 65 = Returns None"
    by (simp add: alaskaPath_def)
  have s: "specialPath demoEnv staleWorld (-100) 65 = Returns (Some demoFeature)"
    by (simp add: specialPath_def Let_def demo_states testLons_def mainBounds_def demo_contains
        inBox_def)
  from inv w a s have "classifyBody demoEnv staleWorld (80, 25) = Returns (Some demoFeature)"
    by (simp add: classifyBody_def demo_states)
  then show ?thesis by (simp add: getCountryAtPointSlow_def tryCatch_def)
qed

lemma chunk_points: "gridPoints 80 85 25 30 5 = Returns [(80, 25)]"
  by (simp add: gridPoints_def forRange_def stepsFrom.simps)

lemma stale_chunk:
  "processChunk demoEnv staleWorld bigChunk
     = Returns (staleWorld, [\<lparr>dot_x = 80, dot_y = 25, countryName = None,
                               coords = Some (Fin (-100), Fin 65)\<rparr>])"
proof -
  have inv: "invert demoEnv (360, 180) (80, 25) = Returns (Some (Fin (-100), Fin 65))"
    by (simp add: demoEnv_def plate_invert_full)
  have i: "isPointInProjection demoEnv staleWorld (80, 25) = Returns True"
    by (simp add: isPointInProjection_def demo_states inv tryCatch_def)
  have c: "chunkPoint demoEnv staleWorld True (80, 25) []
             = Returns [\<lparr>dot_x = 80, dot_y = 25, countryName = None,
                          coords = Some (Fin (-100), Fin 65)\<rparr>]"
    by (simp add: chunkPoint_def i demo_states getCountryAtPointFast_def lookupCell_def
        js_floor_div_eq invertCurrent_def inv makeDot_def)
  show ?thesis
    by (simp add: processChunk_def demo_states bigChunk_def Let_def chunk_points c)
qed

text \<open>
  C3 (the code at the failing input). After \<open>init\<close>, a lookup map is built for a
  2 by 2 canvas; its single cell lies off the globe and holds ocean. An \<open>update\<close>
  for a 360 by 180 canvas follows: \<open>calculateDots\<close> refits the projection, its guard
  rejects the map, and the map stays installed. A chunk of a 360 by 180 query then
  arrives. The guard of \<open>calculateDots\<close> would reject the map for this query too, and
  the tiered pipeline puts the point (80, 25) in the feature; \<open>processChunk\<close> reads
  the 1 by 1 map, finds the point outside it, and emits the dot as ocean.
\<close>

theorem processChunk_reads_stale_map:
  "initializeWorld demoEnv [demoFeature] blankWorker = Returns demoWorld
   \<and> buildCountryLookupMap demoEnv demoWorld smallMapRequest = Returns mapWorld
   \<and> calculateDots demoEnv mapWorld updateQuery = Returns (staleWorld, [])
   \<and> \<not> useFast staleWorld bigQuery
   \<and> getCountryAtPointSlow demoEnv staleWorld (80, 25) = Returns (Some demoFeature)
   \<and> processChunk demoEnv staleWorld bigChunk
       = Returns (staleWorld, [\<lparr>dot_x = 80, dot_y = 25, countryName = None,
                                 coords = Some (Fin (-100), Fin 65)\<rparr>])"
  using demoWorld_init build_small_map update_keeps_map stale_not_fast(2) slow_inside stale_chunk
  by simp
end
